theory Spec2Isabelle
  imports Complex_Main
begin

section \<open>Dates and times\<close>

text \<open>
  A \<^verbatim>\<open>datetime.datetime\<close> object: the calendar fields of the wall clock and the UTC
  offset in microseconds, \<open>None\<close> for a naive value. The class keeps
  \<open>1 \<le> year \<le> 9999\<close>, \<open>1 \<le> month \<le> 12\<close> and \<open>1 \<le> day \<le> 31\<close>.
\<close>

record datetime =
  year :: nat
  month :: nat
  day :: nat
  hour :: nat
  minute :: nat
  second :: nat
  microsecond :: nat
  utcoffset :: "int option"

text \<open>
  The exceptions of the model: the three Python raises on a missing key, an unreadable date
  and a mixed subtraction; \<^verbatim>\<open>HttpError\<close> and any other failure of the calendar service;
  and the errors of SQLite.
\<close>

datatype py_error = KeyError | ValueError | TypeError | HttpError | TransportError | SqliteError

text \<open>The bounds the class keeps on the three calendar fields.\<close>

definition valid_date :: "datetime \<Rightarrow> bool" where
  "valid_date d = (1 \<le> year d \<and> year d \<le> 9999 \<and> 1 \<le> month d \<and> month d \<le> 12
     \<and> 1 \<le> day d \<and> day d \<le> 31)"

definition is_leap :: "nat \<Rightarrow> bool" where
  "is_leap y = (y mod 4 = 0 \<and> (y mod 100 \<noteq> 0 \<or> y mod 400 = 0))"

definition days_in_months :: "nat \<Rightarrow> nat list" where
  "days_in_months y = [31, if is_leap y then 29 else 28, 31, 30, 31, 30, 31, 31, 30, 31, 30, 31]"

definition days_before_year :: "nat \<Rightarrow> int" where
  "days_before_year y = (let p = int y - 1 in p * 365 + p div 4 - p div 100 + p div 400)"

definition days_before_month :: "nat \<Rightarrow> nat \<Rightarrow> int" where
  "days_before_month y m = int (sum_list (take (m - 1) (days_in_months y)))"

definition ymd2ord :: "nat \<Rightarrow> nat \<Rightarrow> nat \<Rightarrow> int" where
  "ymd2ord y m d = days_before_year y + days_before_month y m + int d"

text \<open>The wall-clock reading in microseconds since the start of day 0 of the ordinal calendar.\<close>

definition wall_us :: "datetime \<Rightarrow> int" where
  "wall_us d = (((ymd2ord (year d) (month d) (day d) * 24 + int (hour d)) * 60 + int (minute d)) * 60
      + int (second d)) * 1000000 + int (microsecond d)"

text \<open>
  \<^verbatim>\<open>a - b\<close> on two datetimes, as a timedelta in microseconds: two naive values are
  compared by their wall clocks, two aware values by their instants, and a naive with an
  aware one raises \<^verbatim>\<open>TypeError\<close>.
\<close>

definition sub_datetime :: "datetime \<Rightarrow> datetime \<Rightarrow> py_error + int" where
  "sub_datetime a b =
     (case (utcoffset a, utcoffset b) of
        (None, None) \<Rightarrow> Inr (wall_us a - wall_us b)
      | (Some oa, Some ob) \<Rightarrow> Inr ((wall_us a - oa) - (wall_us b - ob))
      | _ \<Rightarrow> Inl TypeError)"

text \<open>\<^verbatim>\<open>timedelta.days\<close>: the timedelta is normalised, so the days are the floor.\<close>

definition td_days :: "int \<Rightarrow> int" where
  "td_days td = td div 86400000000"

text \<open>
  \<^verbatim>\<open>timedelta.total_seconds() / 3600\<close>. Python computes it in binary floating point;
  the model keeps the exact rational, so rounding is outside it.
\<close>

definition td_hours :: "int \<Rightarrow> rat" where
  "td_hours td = of_int td / 3600000000"

section \<open>Period keys\<close>

definition digit :: "nat \<Rightarrow> char" where
  "digit n = ''0123456789'' ! (n mod 10)"

definition fmt2 :: "nat \<Rightarrow> string" where
  "fmt2 n = [digit (n div 10), digit n]"

text \<open>
  A number in decimal, without padding. The equation is recursive without a pattern, so
  it is not left to the simplifier.
\<close>

fun decimal :: "nat \<Rightarrow> string" where
  "decimal n = (if n < 10 then [digit n] else decimal (n div 10) @ [digit n])"

declare decimal.simps [simp del]

text \<open>
  \<^verbatim>\<open>strftime("%Y%m%d")\<close>. \<^verbatim>\<open>%m\<close> and \<^verbatim>\<open>%d\<close> are two digits. \<^verbatim>\<open>%Y\<close> is the
  year as a decimal number, which the C library of Linux does not pad: four digits from
  the year 1000, and \<^verbatim>\<open>9990102\<close> for the second of January 999.
\<close>

definition strftime_Ymd :: "datetime \<Rightarrow> string" where
  "strftime_Ymd d = decimal (year d) @ fmt2 (month d) @ fmt2 (day d)"

definition get_period_key :: "string \<Rightarrow> datetime \<Rightarrow> datetime \<Rightarrow> string" where
  "get_period_key period_type start_date end_date =
     (let start_str = strftime_Ymd start_date;
          end_str = strftime_Ymd end_date
      in period_type @ ''_'' @ start_str @ ''_'' @ end_str)"

section \<open>Title patterns\<close>

text \<open>
  Titles are Python strings; here they are their UTF-8 bytes. The three patterns of the
  program only name ASCII characters, the line feed and the class \<^verbatim>\<open>\s\<close>.
\<close>

definition is_upper :: "char \<Rightarrow> bool" where
  "is_upper c = ((65::nat) \<le> of_char c \<and> (of_char c :: nat) \<le> 90)"

definition newline :: char where
  "newline = CHR 0x0A"

text \<open>The text a greedy \<^verbatim>\<open>.*\<close> consumes: everything up to the first line feed.\<close>

definition dot_star :: "string \<Rightarrow> string" where
  "dot_star s = takeWhile (\<lambda>c. c \<noteq> newline) s"

text \<open>\<^verbatim>\<open>re.match(r'^@([A-Z]{3})[ _](.*)', summary)\<close>: the two groups of a match.\<close>

fun category_match :: "string \<Rightarrow> (string \<times> string) option" where
  "category_match (a # b # c # d # e # rest) =
     (if a = CHR ''@'' \<and> is_upper b \<and> is_upper c \<and> is_upper d \<and> (e = CHR '' '' \<or> e = CHR ''_'')
      then Some ([b, c, d], dot_star rest) else None)"
| "category_match _ = None"

text \<open>
  \<^verbatim>\<open>re.match(r'^@[A-Z]{3}[ _].*$', summary)\<close> as a truth value: after \<^verbatim>\<open>.*\<close> the
  \<^verbatim>\<open>$\<close> needs the end of the string, or one line feed that ends it.
\<close>

fun recurring_match :: "string \<Rightarrow> bool" where
  "recurring_match (a # b # c # d # e # rest) =
     (a = CHR ''@'' \<and> is_upper b \<and> is_upper c \<and> is_upper d \<and> (e = CHR '' '' \<or> e = CHR ''_'')
      \<and> (let tail = dropWhile (\<lambda>c. c \<noteq> newline) rest in tail = [] \<or> tail = [newline]))"
| "recurring_match _ = False"

text \<open>
  The UTF-8 encodings of the characters of \<^verbatim>\<open>\s\<close> in a \<^verbatim>\<open>str\<close> pattern: U+0009 to
  U+000D, U+001C to U+0020, U+0085, U+00A0, U+1680, U+2000 to U+200A, U+2028, U+2029,
  U+202F, U+205F and U+3000.
\<close>

definition whitespace_codes :: "nat list list" where
  "whitespace_codes =
     [[0x09], [0x0A], [0x0B], [0x0C], [0x0D], [0x1C], [0x1D], [0x1E], [0x1F], [0x20],
      [0xC2, 0x85], [0xC2, 0xA0], [0xE1, 0x9A, 0x80],
      [0xE2, 0x80, 0x80], [0xE2, 0x80, 0x81], [0xE2, 0x80, 0x82], [0xE2, 0x80, 0x83],
      [0xE2, 0x80, 0x84], [0xE2, 0x80, 0x85], [0xE2, 0x80, 0x86], [0xE2, 0x80, 0x87],
      [0xE2, 0x80, 0x88], [0xE2, 0x80, 0x89], [0xE2, 0x80, 0x8A],
      [0xE2, 0x80, 0xA8], [0xE2, 0x80, 0xA9], [0xE2, 0x80, 0xAF], [0xE2, 0x81, 0x9F],
      [0xE3, 0x80, 0x80]]"

definition starts_with_space :: "string \<Rightarrow> bool" where
  "starts_with_space s =
     list_ex (\<lambda>w. take (length w) (map of_char s) = w) whitespace_codes"

text \<open>
  \<^verbatim>\<open>re.match(r'^@([A-Z]{3})\s+(.*)', summary)\<close>: group 1 of a match, the only group
  the program reads.
\<close>

fun store_category_match :: "string \<Rightarrow> string option" where
  "store_category_match (a # b # c # d # rest) =
     (if a = CHR ''@'' \<and> is_upper b \<and> is_upper c \<and> is_upper d \<and> starts_with_space rest
      then Some [b, c, d] else None)"
| "store_category_match _ = None"

text \<open>The category and the subcategory a report gives a title.\<close>

definition categorize :: "string \<Rightarrow> string \<times> string" where
  "categorize summary =
     (case category_match summary of
        Some (tag, rest) \<Rightarrow> (tag, rest)
      | None \<Rightarrow> (''Other'', summary))"

text \<open>The category the store writes into an event's row.\<close>

definition store_category :: "string \<Rightarrow> string" where
  "store_category summary =
     (case store_category_match summary of Some tag \<Rightarrow> tag | None \<Rightarrow> ''Other'')"

section \<open>Events and configuration\<close>

text \<open>
  An event is a dictionary; a field that may be missing is an option. \<open>ev_start\<close> and
  \<open>ev_end\<close> are the dictionaries under \<^verbatim>\<open>'start'\<close> and \<^verbatim>\<open>'end'\<close>, with the keys
  \<^verbatim>\<open>'date'\<close> and \<^verbatim>\<open>'dateTime'\<close>. Under \<^verbatim>\<open>'colorId'\<close> the value itself may be
  \<^verbatim>\<open>None\<close>. The keys \<^verbatim>\<open>'duration'\<close> and \<^verbatim>\<open>'category'\<close> exist on events read
  back from the database only.
\<close>

record time_field =
  tf_date :: "string option"
  tf_dateTime :: "string option"

record event =
  ev_id :: "string option"
  ev_summary :: "string option"
  ev_start :: "time_field option"
  ev_end :: "time_field option"
  ev_colorId :: "string option option"
  ev_duration :: "rat option"
  ev_category :: "string option"

record config =
  all_day_event_hours :: "rat option"
  calendars :: "string list option"

text \<open>\<^verbatim>\<open>float(self.config.get("all_day_event_hours", 8))\<close>\<close>

definition hours_per_day :: "config \<Rightarrow> rat" where
  "hours_per_day cfg = (case all_day_event_hours cfg of None \<Rightarrow> 8 | Some h \<Rightarrow> h)"

text \<open>
  \<^verbatim>\<open>datetime.datetime.fromisoformat\<close> belongs to the Python library, so the functions
  that call it take it as the parameter \<open>fromisoformat\<close>; \<open>None\<close> is its
  \<^verbatim>\<open>ValueError\<close>.
\<close>

type_synonym isoparser = "string \<Rightarrow> datetime option"

definition parse_iso :: "isoparser \<Rightarrow> string \<Rightarrow> py_error + datetime" where
  "parse_iso fromisoformat s = (case fromisoformat s of None \<Rightarrow> Inl ValueError | Some d \<Rightarrow> Inr d)"

text \<open>\<^verbatim>\<open>s.replace('Z', '+00:00')\<close>\<close>

definition replace_Z :: "string \<Rightarrow> string" where
  "replace_Z s = concat (map (\<lambda>c. if c = CHR ''Z'' then ''+00:00'' else [c]) s)"

text \<open>Sequencing of steps that may raise: the first exception ends the computation.\<close>

definition raise_bind :: "py_error + 'a \<Rightarrow> ('a \<Rightarrow> py_error + 'b) \<Rightarrow> py_error + 'b" where
  "raise_bind m f = (case m of Inl e \<Rightarrow> Inl e | Inr x \<Rightarrow> f x)"

section \<open>Duration of an event\<close>

definition all_day_hours :: "isoparser \<Rightarrow> config \<Rightarrow> string \<Rightarrow> string \<Rightarrow> py_error + rat" where
  "all_day_hours fromisoformat cfg start_str end_str =
     raise_bind (parse_iso fromisoformat start_str) (\<lambda>start_date.
     raise_bind (parse_iso fromisoformat end_str) (\<lambda>end_date.
     raise_bind (sub_datetime end_date start_date) (\<lambda>td.
     Inr (of_int (td_days td) * hours_per_day cfg))))"

definition timed_hours :: "isoparser \<Rightarrow> string \<Rightarrow> string \<Rightarrow> py_error + rat" where
  "timed_hours fromisoformat start_str end_str =
     raise_bind (parse_iso fromisoformat (replace_Z start_str)) (\<lambda>start_time.
     raise_bind (parse_iso fromisoformat (replace_Z end_str)) (\<lambda>end_time.
     raise_bind (sub_datetime end_time start_time) (\<lambda>td.
     Inr (td_hours td))))"

definition calculate_event_duration :: "isoparser \<Rightarrow> config \<Rightarrow> event \<Rightarrow> py_error + rat" where
  "calculate_event_duration fromisoformat cfg event =
     (case (ev_start event, ev_end event) of
        (Some s, Some e) \<Rightarrow>
          (case (tf_date s, tf_date e) of
             (Some sd, Some ed) \<Rightarrow> all_day_hours fromisoformat cfg sd ed
           | _ \<Rightarrow>
             (case (tf_dateTime s, tf_dateTime e) of
                (Some st, Some et) \<Rightarrow> timed_hours fromisoformat st et
              | _ \<Rightarrow> Inr 0))
      | _ \<Rightarrow> Inr 0)"

section \<open>The database\<close>

text \<open>
  The two tables. \<open>periods\<close> is read by its primary key only. \<open>events\<close> is kept in
  row order, the order a \<^verbatim>\<open>SELECT\<close> without \<^verbatim>\<open>ORDER BY\<close> scans it in; its primary
  key is \<open>row_id\<close>. The period's two dates are stored as their ISO text, which the model
  keeps as the values.
\<close>

record event_row =
  row_id :: string
  row_summary :: string
  row_start_time :: string
  row_end_time :: string
  row_duration :: rat
  row_is_all_day :: bool
  row_category :: string
  row_period_key :: string
  row_color :: "string option"

record period_row =
  period_type :: string
  start_date :: datetime
  end_date :: datetime
  is_complete :: int

record tables =
  periods :: "string \<rightharpoonup> period_row"
  events :: "event_row list"

text \<open>
  A connection: the committed tables and, while a transaction is open, the tables as the
  transaction has written them. Statements on the connection read the latter.
\<close>

record connection =
  committed :: tables
  txn :: "tables option"

definition visible :: "connection \<Rightarrow> tables" where
  "visible c = (case txn c of Some t \<Rightarrow> t | None \<Rightarrow> committed c)"

text \<open>
  The statements a call sends, \<open>InsertEvent i\<close> for the event at position \<open>i\<close> of the
  list. A predicate \<open>sql_fails\<close> on them says where SQLite raises: it stands for the
  disk, a lock or a corrupt file.
\<close>

datatype statement = Begin | InsertPeriod | InsertEvent nat | Commit | SelectPeriod | SelectEvents

text \<open>The result of a step inside \<^verbatim>\<open>try\<close>: the exception, if any, and the connection as the step left it.\<close>

type_synonym outcome = "py_error option \<times> connection"

definition begin_transaction :: "(statement \<Rightarrow> bool) \<Rightarrow> connection \<Rightarrow> outcome" where
  "begin_transaction sql_fails c =
     (if sql_fails Begin \<or> txn c \<noteq> None then (Some SqliteError, c)
      else (None, c\<lparr>txn := Some (committed c)\<rparr>))"

definition execute :: "(statement \<Rightarrow> bool) \<Rightarrow> statement \<Rightarrow> (tables \<Rightarrow> tables) \<Rightarrow> connection \<Rightarrow> outcome" where
  "execute sql_fails stmt f c =
     (if sql_fails stmt then (Some SqliteError, c) else (None, c\<lparr>txn := Some (f (visible c))\<rparr>))"

definition commit :: "(statement \<Rightarrow> bool) \<Rightarrow> connection \<Rightarrow> outcome" where
  "commit sql_fails c =
     (if sql_fails Commit then (Some SqliteError, c) else (None, \<lparr>committed = visible c, txn = None\<rparr>))"

definition rollback :: "connection \<Rightarrow> connection" where
  "rollback c = c\<lparr>txn := None\<rparr>"

text \<open>\<^verbatim>\<open>INSERT OR REPLACE\<close>: a row with the same primary key is deleted, the new row is appended.\<close>

definition insert_or_replace_period :: "string \<Rightarrow> period_row \<Rightarrow> tables \<Rightarrow> tables" where
  "insert_or_replace_period period_key r t = t\<lparr>periods := (periods t)(period_key \<mapsto> r)\<rparr>"

definition insert_or_replace_event :: "event_row \<Rightarrow> tables \<Rightarrow> tables" where
  "insert_or_replace_event r t = t\<lparr>events := filter (\<lambda>x. row_id x \<noteq> row_id r) (events t) @ [r]\<rparr>"

subsection \<open>is\_period\_in\_database\<close>

definition is_period_in_database :: "(statement \<Rightarrow> bool) \<Rightarrow> connection option \<Rightarrow> string \<Rightarrow> bool" where
  "is_period_in_database sql_fails db_conn period_key =
     (case db_conn of
        None \<Rightarrow> False
      | Some c \<Rightarrow>
          if sql_fails SelectPeriod then False
          else (case periods (visible c) period_key of
                  None \<Rightarrow> False
                | Some r \<Rightarrow> is_complete r = 1))"

subsection \<open>store\_period\_in\_database\<close>

text \<open>\<^verbatim>\<open>event.get(k, {}).get('dateTime', '')\<close>\<close>

definition get_dateTime :: "time_field option \<Rightarrow> string" where
  "get_dateTime field =
     (case field of None \<Rightarrow> [] | Some t \<Rightarrow> (case tf_dateTime t of None \<Rightarrow> [] | Some v \<Rightarrow> v))"

text \<open>
  The all-day flag and the two time columns of an event's row. \<^verbatim>\<open>event['start']\<close> is
  read first, and \<^verbatim>\<open>event['end']\<close> only when the start has a \<^verbatim>\<open>'date'\<close>.
\<close>

definition row_times :: "event \<Rightarrow> py_error + (bool \<times> string \<times> string)" where
  "row_times event =
     (case ev_start event of
        None \<Rightarrow> Inl KeyError
      | Some s \<Rightarrow>
          (case tf_date s of
             None \<Rightarrow> Inr (False, get_dateTime (ev_start event), get_dateTime (ev_end event))
           | Some sd \<Rightarrow>
               (case ev_end event of
                  None \<Rightarrow> Inl KeyError
                | Some e \<Rightarrow>
                    (case tf_date e of
                       None \<Rightarrow> Inr (False, get_dateTime (ev_start event), get_dateTime (ev_end event))
                     | Some ed \<Rightarrow> Inr (True, sd, ed)))))"

text \<open>
  The body of the loop up to the \<^verbatim>\<open>INSERT\<close>: \<open>Inr None\<close> when the event is passed over
  by \<^verbatim>\<open>continue\<close>, the row otherwise, or the exception.
\<close>

definition event_row_of :: "isoparser \<Rightarrow> config \<Rightarrow> string \<Rightarrow> event \<Rightarrow> py_error + event_row option" where
  "event_row_of fromisoformat cfg period_key event =
     (case (ev_id event, ev_summary event) of
        (Some event_id, Some summary) \<Rightarrow>
          (let category = store_category summary in
           raise_bind (row_times event) (\<lambda>(is_all_day, start_time, end_time).
           raise_bind (calculate_event_duration fromisoformat cfg event) (\<lambda>duration.
           (let color = (case ev_colorId event of None \<Rightarrow> Some [] | Some v \<Rightarrow> v) in
            Inr (Some \<lparr>row_id = event_id, row_summary = summary, row_start_time = start_time,
                       row_end_time = end_time, row_duration = duration, row_is_all_day = is_all_day,
                       row_category = category, row_period_key = period_key, row_color = color\<rparr>)))))
      | _ \<Rightarrow> Inr None)"

fun store_events ::
  "isoparser \<Rightarrow> config \<Rightarrow> (statement \<Rightarrow> bool) \<Rightarrow> string \<Rightarrow> nat \<Rightarrow> event list \<Rightarrow> connection \<Rightarrow> outcome" where
  "store_events fromisoformat cfg sql_fails period_key i [] c = (None, c)"
| "store_events fromisoformat cfg sql_fails period_key i (event # rest) c =
     (case event_row_of fromisoformat cfg period_key event of
        Inl e \<Rightarrow> (Some e, c)
      | Inr None \<Rightarrow> store_events fromisoformat cfg sql_fails period_key (Suc i) rest c
      | Inr (Some r) \<Rightarrow>
          (case execute sql_fails (InsertEvent i) (insert_or_replace_event r) c of
             (Some e, c') \<Rightarrow> (Some e, c')
           | (None, c') \<Rightarrow> store_events fromisoformat cfg sql_fails period_key (Suc i) rest c'))"

text \<open>The body of \<^verbatim>\<open>try\<close>, from \<^verbatim>\<open>BEGIN TRANSACTION\<close> to the commit.\<close>

definition store_transaction ::
  "isoparser \<Rightarrow> config \<Rightarrow> (statement \<Rightarrow> bool) \<Rightarrow> string \<Rightarrow> string \<Rightarrow> datetime \<Rightarrow> datetime
     \<Rightarrow> event list \<Rightarrow> connection \<Rightarrow> outcome" where
  "store_transaction fromisoformat cfg sql_fails period_key ptype start_d end_d evs c0 =
     (case begin_transaction sql_fails c0 of
        (Some e, c) \<Rightarrow> (Some e, c)
      | (None, c) \<Rightarrow>
          (case execute sql_fails InsertPeriod
                  (insert_or_replace_period period_key
                     \<lparr>period_type = ptype, start_date = start_d, end_date = end_d, is_complete = 1\<rparr>) c of
             (Some e, c) \<Rightarrow> (Some e, c)
           | (None, c) \<Rightarrow>
               (case store_events fromisoformat cfg sql_fails period_key 0 evs c of
                  (Some e, c) \<Rightarrow> (Some e, c)
                | (None, c) \<Rightarrow> commit sql_fails c)))"

definition store_period_in_database ::
  "isoparser \<Rightarrow> config \<Rightarrow> (statement \<Rightarrow> bool) \<Rightarrow> connection option \<Rightarrow> string \<Rightarrow> datetime \<Rightarrow> datetime
     \<Rightarrow> event list \<Rightarrow> bool \<times> connection option" where
  "store_period_in_database fromisoformat cfg sql_fails db_conn ptype start_d end_d evs =
     (case db_conn of
        None \<Rightarrow> (False, None)
      | Some c0 \<Rightarrow>
          (let period_key = get_period_key ptype start_d end_d in
           case store_transaction fromisoformat cfg sql_fails period_key ptype start_d end_d evs c0 of
             (None, c) \<Rightarrow> (True, Some c)
           | (Some e, c) \<Rightarrow> (False, Some (rollback c))))"

subsection \<open>get\_events\_from\_database\<close>

definition event_of_row :: "event_row \<Rightarrow> event" where
  "event_of_row row =
     \<lparr>ev_id = Some (row_id row),
      ev_summary = Some (row_summary row),
      ev_start = Some (if \<not> row_is_all_day row
                       then \<lparr>tf_date = None, tf_dateTime = Some (row_start_time row)\<rparr>
                       else \<lparr>tf_date = Some (row_start_time row), tf_dateTime = None\<rparr>),
      ev_end = Some (if \<not> row_is_all_day row
                     then \<lparr>tf_date = None, tf_dateTime = Some (row_end_time row)\<rparr>
                     else \<lparr>tf_date = Some (row_end_time row), tf_dateTime = None\<rparr>),
      ev_colorId = Some (case row_color row of
                           None \<Rightarrow> None
                         | Some v \<Rightarrow> if v \<noteq> [] then Some v else None),
      ev_duration = Some (row_duration row),
      ev_category = Some (row_category row)\<rparr>"

definition get_events_from_database :: "(statement \<Rightarrow> bool) \<Rightarrow> connection option \<Rightarrow> string \<Rightarrow> event list" where
  "get_events_from_database sql_fails db_conn period_key =
     (case db_conn of
        None \<Rightarrow> []
      | Some c \<Rightarrow>
          if sql_fails SelectEvents then []
          else map event_of_row (filter (\<lambda>row. row_period_key row = period_key) (events (visible c))))"

section \<open>get\_events\<close>

text \<open>
  The calendar service is the external collaborator: a request for one page of one
  calendar is answered by a page or by an exception. \<^verbatim>\<open>HttpError\<close> is the exception
  \<^verbatim>\<open>get_events\<close> catches; any other one leaves the function.
\<close>

record page =
  items :: "event list option"
  nextPageToken :: "string option"

type_synonym service = "string \<Rightarrow> datetime \<Rightarrow> datetime \<Rightarrow> string option \<Rightarrow> py_error + page"

text \<open>\<^verbatim>\<open>not page_token\<close>: \<^verbatim>\<open>None\<close> and the empty string end the paging.\<close>

definition no_token :: "string option \<Rightarrow> bool" where
  "no_token t = (t = None \<or> t = Some [])"

text \<open>
  The \<^verbatim>\<open>while True\<close> loop over the pages of one calendar. The service decides when it
  ends, so the loop is a partial function: \<open>None\<close> is a loop that never ends.
\<close>

partial_function (option) fetch_pages ::
  "service \<Rightarrow> string \<Rightarrow> datetime \<Rightarrow> datetime \<Rightarrow> string option \<Rightarrow> event list \<Rightarrow> (py_error + event list) option" where
  "fetch_pages svc calendar_id time_min time_max page_token events_result =
     (case svc calendar_id time_min time_max page_token of
        Inl e \<Rightarrow> Some (Inl e)
      | Inr p \<Rightarrow>
          if no_token (nextPageToken p)
          then Some (Inr (events_result @ (case items p of None \<Rightarrow> [] | Some xs \<Rightarrow> xs)))
          else fetch_pages svc calendar_id time_min time_max (nextPageToken p)
                 (events_result @ (case items p of None \<Rightarrow> [] | Some xs \<Rightarrow> xs)))"

fun fetch_calendars ::
  "service \<Rightarrow> string list \<Rightarrow> datetime \<Rightarrow> datetime \<Rightarrow> event list \<Rightarrow> (py_error + event list) option" where
  "fetch_calendars svc [] time_min time_max events_result = Some (Inr events_result)"
| "fetch_calendars svc (calendar_id # rest) time_min time_max events_result =
     (case fetch_pages svc calendar_id time_min time_max None events_result of
        None \<Rightarrow> None
      | Some (Inl e) \<Rightarrow> Some (Inl e)
      | Some (Inr events_result') \<Rightarrow> fetch_calendars svc rest time_min time_max events_result')"

text \<open>
  \<open>get_events\<close> returns the list, or the exception that leaves it, together with the
  connection as the call left it; \<open>None\<close> when the paging never ends. The two dates go to
  the service as their ISO text, which the model keeps as the values.
\<close>

definition get_events ::
  "(statement \<Rightarrow> bool) \<Rightarrow> config \<Rightarrow> service option \<Rightarrow> connection option \<Rightarrow> datetime \<Rightarrow> datetime \<Rightarrow> string
     \<Rightarrow> ((py_error + event list) \<times> connection option) option" where
  "get_events sql_fails cfg svc db_conn start_d end_d ptype =
     (let period_key = get_period_key ptype start_d end_d in
      if is_period_in_database sql_fails db_conn period_key
      then Some (Inr (get_events_from_database sql_fails db_conn period_key), db_conn)
      else
        (case svc of
           None \<Rightarrow> Some (Inr [], db_conn)
         | Some s \<Rightarrow>
             (case fetch_calendars s (case calendars cfg of None \<Rightarrow> [''primary''] | Some cs \<Rightarrow> cs)
                     start_d end_d [] of
                None \<Rightarrow> None
              | Some (Inr events_result) \<Rightarrow> Some (Inr events_result, db_conn)
              | Some (Inl HttpError) \<Rightarrow> Some (Inr [], db_conn)
              | Some (Inl e) \<Rightarrow> Some (Inl e, db_conn))))"

section \<open>generate\_report\<close>

text \<open>
  The report is printed; the model keeps what the loop over the events collects and the
  rows of the last section, the summary of recurring events. The formatted columns
  (\<^verbatim>\<open>start\<close>, \<^verbatim>\<open>end\<close>, \<^verbatim>\<open>duration_str\<close>) and the tables printed in between are text
  made from these values and are left out.
\<close>

record event_data =
  ed_summary :: string
  ed_subcategory :: string
  ed_date :: string
  ed_duration :: rat
  ed_category :: string
  ed_color :: "string option"

text \<open>The dictionaries of the loop keep the order in which their keys were first written.\<close>

record report_state =
  event_durations :: "(string \<times> rat) list"
  event_count :: "(string \<times> nat) list"
  categorized_events :: "(string \<times> event_data list) list"
  uncategorized_events :: "event_data list"
  category_durations :: "(string \<times> rat) list"

text \<open>\<^verbatim>\<open>d[k] = f(d[k])\<close> on a \<^verbatim>\<open>defaultdict\<close> whose default is \<open>dflt\<close>.\<close>

fun dict_upd :: "'k \<Rightarrow> ('v \<Rightarrow> 'v) \<Rightarrow> 'v \<Rightarrow> ('k \<times> 'v) list \<Rightarrow> ('k \<times> 'v) list" where
  "dict_upd k f dflt [] = [(k, f dflt)]"
| "dict_upd k f dflt ((k', v) # d) =
     (if k' = k then (k', f v) # d else (k', v) # dict_upd k f dflt d)"

text \<open>\<^verbatim>\<open>strftime("%Y-%m-%d")\<close>\<close>

definition strftime_Y_m_d :: "datetime \<Rightarrow> string" where
  "strftime_Y_m_d d = decimal (year d) @ ''-'' @ fmt2 (month d) @ ''-'' @ fmt2 (day d)"

text \<open>
  The display date and the duration of one event, in the order the loop reads the fields.
  Nothing here is inside a \<^verbatim>\<open>try\<close>. The all-day branch computes what
  \<open>all_day_hours\<close> does, in the same order.
\<close>

definition report_times :: "isoparser \<Rightarrow> config \<Rightarrow> event \<Rightarrow> py_error + (string \<times> rat)" where
  "report_times fromisoformat cfg event =
     (case ev_start event of
        None \<Rightarrow> Inl KeyError
      | Some s \<Rightarrow>
          (case tf_date s of
             Some start_date_str \<Rightarrow>
               (case ev_end event of
                  None \<Rightarrow> Inl KeyError
                | Some e \<Rightarrow>
                    (case tf_date e of
                       None \<Rightarrow> Inl KeyError
                     | Some end_date_str \<Rightarrow>
                         raise_bind (all_day_hours fromisoformat cfg start_date_str end_date_str)
                           (\<lambda>duration. Inr (start_date_str, duration))))
           | None \<Rightarrow>
               (case tf_dateTime s of
                  None \<Rightarrow> Inl KeyError
                | Some st \<Rightarrow>
                    raise_bind (parse_iso fromisoformat (replace_Z st)) (\<lambda>start_dt.
                      (case ev_end event of
                         None \<Rightarrow> Inl KeyError
                       | Some e \<Rightarrow>
                           (case tf_dateTime e of
                              None \<Rightarrow> Inl KeyError
                            | Some et \<Rightarrow>
                                raise_bind (parse_iso fromisoformat (replace_Z et)) (\<lambda>end_dt.
                                raise_bind (sub_datetime end_dt start_dt) (\<lambda>td.
                                Inr (strftime_Y_m_d start_dt, td_hours td)))))))))"

definition report_event :: "isoparser \<Rightarrow> config \<Rightarrow> event \<Rightarrow> report_state \<Rightarrow> py_error + report_state" where
  "report_event fromisoformat cfg event st =
     (case ev_summary event of
        None \<Rightarrow> Inr st
      | Some summary \<Rightarrow>
          (case categorize summary of (category, subcategory) \<Rightarrow>
             raise_bind (report_times fromisoformat cfg event) (\<lambda>(start_date_str, duration).
               (let st1 = st\<lparr>event_durations := dict_upd summary (\<lambda>v. v + duration) 0 (event_durations st),
                              event_count := dict_upd summary (\<lambda>n. n + 1) 0 (event_count st),
                              category_durations :=
                                dict_upd category (\<lambda>v. v + duration) 0 (category_durations st)\<rparr>;
                    data = \<lparr>ed_summary = summary, ed_subcategory = subcategory,
                            ed_date = start_date_str, ed_duration = duration, ed_category = category,
                            ed_color = (case ev_colorId event of None \<Rightarrow> Some [] | Some v \<Rightarrow> v)\<rparr>
                in if category \<noteq> ''Other''
                   then Inr (st1\<lparr>categorized_events :=
                                   dict_upd category (\<lambda>l. l @ [data]) [] (categorized_events st1)\<rparr>)
                   else Inr (st1\<lparr>uncategorized_events := uncategorized_events st1 @ [data]\<rparr>)))))"

fun report_loop :: "isoparser \<Rightarrow> config \<Rightarrow> event list \<Rightarrow> report_state \<Rightarrow> py_error + report_state" where
  "report_loop fromisoformat cfg [] st = Inr st"
| "report_loop fromisoformat cfg (event # rest) st =
     raise_bind (report_event fromisoformat cfg event st) (report_loop fromisoformat cfg rest)"

text \<open>
  The loop of the recurring-events section, over the titles sorted by total duration. A
  row is a title, its number of occurrences and its total. In the source the formatting
  of the total and the \<^verbatim>\<open>print\<close> stand under the \<^verbatim>\<open>if\<close>, after its \<^verbatim>\<open>continue\<close>:
  a title the filter rejects goes on to the next one, and for a title that passes the
  filter the body has nothing left to run.
\<close>

fun recurring_rows :: "(string \<times> rat) list \<Rightarrow> (string \<times> nat) list \<Rightarrow> (string \<times> nat \<times> rat) list" where
  "recurring_rows [] counts = []"
| "recurring_rows ((summary, total_duration) # rest) counts =
     (if count_list summary CHR ''@'' > 1 \<or> \<not> recurring_match summary
      then recurring_rows rest counts
      else recurring_rows rest counts)"

text \<open>\<^verbatim>\<open>sorted(event_durations.items(), key=lambda x: x[1], reverse=True)\<close>: stable, largest first.\<close>

definition sorted_by_duration :: "(string \<times> rat) list \<Rightarrow> (string \<times> rat) list" where
  "sorted_by_duration d = sort_key (\<lambda>x. - snd x) d"

datatype report = NoEvents | Report report_state "(string \<times> nat \<times> rat) list"

definition empty_state :: report_state where
  "empty_state = \<lparr>event_durations = [], event_count = [], categorized_events = [],
                   uncategorized_events = [], category_durations = []\<rparr>"

definition generate_report :: "isoparser \<Rightarrow> config \<Rightarrow> event list \<Rightarrow> py_error + report" where
  "generate_report fromisoformat cfg evs =
     (if evs = [] then Inr NoEvents
      else raise_bind (report_loop fromisoformat cfg evs empty_state) (\<lambda>st.
             Inr (Report st (recurring_rows (sorted_by_duration (event_durations st)) (event_count st)))))"

section \<open>Auxiliary notions for the statements\<close>

text \<open>
  No transaction is open on the connection: the state in which every call of the program
  leaves it. \<open>no_faults\<close> is a database on which no statement raises.
\<close>

definition idle :: "connection option \<Rightarrow> bool" where
  "idle db_conn = (case db_conn of None \<Rightarrow> True | Some c \<Rightarrow> txn c = None)"

definition no_faults :: "statement \<Rightarrow> bool" where
  "no_faults st = False"

text \<open>
  The value of a calendar day: a naive \<^verbatim>\<open>datetime\<close> at 00:00, which is what
  \<^verbatim>\<open>fromisoformat\<close> makes of a date.
\<close>

definition midnight :: "nat \<Rightarrow> nat \<Rightarrow> nat \<Rightarrow> datetime" where
  "midnight y m d = \<lparr>year = y, month = m, day = d, hour = 0, minute = 0, second = 0,
                      microsecond = 0, utcoffset = None\<rparr>"

text \<open>
  Four digits, the form of a year from 1000 on; and two values that differ at most in
  their calendar date, as the start dates and as the end dates of two periods do.
\<close>

definition fmt4 :: "nat \<Rightarrow> string" where
  "fmt4 n = [digit (n div 1000), digit (n div 100), digit (n div 10), digit n]"

definition same_time_of_day :: "datetime \<Rightarrow> datetime \<Rightarrow> bool" where
  "same_time_of_day a b =
     (hour a = hour b \<and> minute a = minute b \<and> second a = second b \<and>
      microsecond a = microsecond b \<and> utcoffset a = utcoffset b)"

text \<open>
  What a run of inserts leaves in the table, the rows the loop of the store sends, and the
  ids of the events the loop does not pass over.
\<close>

fun upsert_all :: "event_row list \<Rightarrow> event_row list \<Rightarrow> event_row list" where
  "upsert_all [] tbl = tbl"
| "upsert_all (r # rs) tbl = upsert_all rs (filter (\<lambda>x. row_id x \<noteq> row_id r) tbl @ [r])"

fun rows_of :: "isoparser \<Rightarrow> config \<Rightarrow> string \<Rightarrow> event list \<Rightarrow> event_row list" where
  "rows_of f cfg key [] = []"
| "rows_of f cfg key (ev # evs) =
     (case event_row_of f cfg key ev of
        Inr (Some r) \<Rightarrow> r # rows_of f cfg key evs
      | _ \<Rightarrow> rows_of f cfg key evs)"

definition stored_ids :: "event list \<Rightarrow> string list" where
  "stored_ids evs =
     concat (map (\<lambda>ev. case (ev_id ev, ev_summary ev) of (Some i, Some t) \<Rightarrow> [i] | _ \<Rightarrow> []) evs)"

text \<open>
  The two parts of a printed report.
\<close>

definition recurring_of :: "py_error + report \<Rightarrow> (string \<times> nat \<times> rat) list option" where
  "recurring_of r = (case r of Inr (Report st rows) \<Rightarrow> Some rows | _ \<Rightarrow> None)"

definition state_of :: "py_error + report \<Rightarrow> report_state option" where
  "state_of r = (case r of Inr (Report st rows) \<Rightarrow> Some st | _ \<Rightarrow> None)"

section \<open>Example values\<close>

text \<open>
  \<open>iso_examples\<close> lists what \<^verbatim>\<open>datetime.fromisoformat\<close> returns on the strings of the
  examples, and raises on any other string. \<open>standup\<close> and \<open>lunch\<close> are the two events of
  the end-to-end scenario, \<open>untimed\<close> has a title and neither \<^verbatim>\<open>start\<close> nor \<^verbatim>\<open>end\<close>.
\<close>

definition at_time :: "nat \<Rightarrow> nat \<Rightarrow> nat \<Rightarrow> nat \<Rightarrow> nat \<Rightarrow> int \<Rightarrow> datetime" where
  "at_time y m d hh mm off = \<lparr>year = y, month = m, day = d, hour = hh, minute = mm, second = 0,
                               microsecond = 0, utcoffset = Some off\<rparr>"

definition iso_examples :: isoparser where
  "iso_examples = map_of
     [(''2024-01-01'', midnight 2024 1 1),
      (''2024-01-02'', midnight 2024 1 2),
      (''2024-03-01'', midnight 2024 3 1),
      (''2024-03-02'', midnight 2024 3 2),
      (''2024-01-01T12:00:00-03:00'', at_time 2024 1 1 12 0 (- 10800000000)),
      (''2024-01-01T13:00:00-03:00'', at_time 2024 1 1 13 0 (- 10800000000)),
      (''2024-03-01T09:00:00+00:00'', at_time 2024 3 1 9 0 0),
      (''2024-03-01T11:30:00+00:00'', at_time 2024 3 1 11 30 0)]"

definition all_day_event :: "string \<Rightarrow> string \<Rightarrow> string \<Rightarrow> string \<Rightarrow> event" where
  "all_day_event i title sd ed =
     \<lparr>ev_id = Some i, ev_summary = Some title,
      ev_start = Some \<lparr>tf_date = Some sd, tf_dateTime = None\<rparr>,
      ev_end = Some \<lparr>tf_date = Some ed, tf_dateTime = None\<rparr>,
      ev_colorId = None, ev_duration = None, ev_category = None\<rparr>"

definition timed_event :: "string \<Rightarrow> string \<Rightarrow> string \<Rightarrow> string \<Rightarrow> event" where
  "timed_event i title st et =
     \<lparr>ev_id = Some i, ev_summary = Some title,
      ev_start = Some \<lparr>tf_date = None, tf_dateTime = Some st\<rparr>,
      ev_end = Some \<lparr>tf_date = None, tf_dateTime = Some et\<rparr>,
      ev_colorId = None, ev_duration = None, ev_category = None\<rparr>"

definition standup :: event where
  "standup = all_day_event ''1'' ''@ENG Standup'' ''2024-01-01'' ''2024-01-02''"

definition lunch :: event where
  "lunch = timed_event ''2'' ''Lunch'' ''2024-01-01T12:00:00-03:00'' ''2024-01-01T13:00:00-03:00''"

definition untimed :: event where
  "untimed = \<lparr>ev_id = Some ''3'', ev_summary = Some ''Team sync'', ev_start = None, ev_end = None,
      ev_colorId = None, ev_duration = None, ev_category = None\<rparr>"



definition underscore_event :: event where
  "underscore_event = all_day_event ''7'' ''@ENG_Fix bug'' ''2024-01-01'' ''2024-01-02''"

definition default_config :: config where
  "default_config = \<lparr>all_day_event_hours = Some 8, calendars = Some [''primary'']\<rparr>"

definition empty_db :: connection where
  "empty_db = \<lparr>committed = \<lparr>periods = Map.empty, events = []\<rparr>, txn = None\<rparr>"

definition jan_1 :: datetime where
  "jan_1 = \<lparr>year = 2024, month = 1, day = 1, hour = 0, minute = 0, second = 0,
             microsecond = 0, utcoffset = Some (- 10800000000)\<rparr>"

definition jan_1_end :: datetime where
  "jan_1_end = \<lparr>year = 2024, month = 1, day = 1, hour = 23, minute = 59, second = 59,
                 microsecond = 0, utcoffset = Some (- 10800000000)\<rparr>"

definition jan_31_end :: datetime where
  "jan_31_end = \<lparr>year = 2024, month = 1, day = 31, hour = 23, minute = 59, second = 59,
       microsecond = 0, utcoffset = Some (- 10800000000)\<rparr>"

text \<open>
  The database after \<open>standup\<close> and \<open>lunch\<close> were stored for the first of January, and
  after \<open>lunch\<close> was then stored again for the whole month.
\<close>

definition after_custom :: "connection option" where
  "after_custom = snd (store_period_in_database iso_examples default_config no_faults (Some empty_db)
      ''custom'' jan_1 jan_1_end [standup, lunch])"

definition after_month :: "connection option" where
  "after_month = snd (store_period_in_database iso_examples default_config no_faults after_custom
      ''month_1'' jan_1 jan_31_end [lunch])"

text \<open>
  A service with two pages, one that answers every request with \<^verbatim>\<open>HttpError\<close>, and
  one whose calendar is empty.
\<close>

definition paged_service :: service where
  "paged_service calendar_id time_min time_max page_token =
     (if page_token = None then Inr \<lparr>items = Some [standup], nextPageToken = Some ''p2''\<rparr>
      else Inr \<lparr>items = Some [lunch], nextPageToken = None\<rparr>)"

definition failing_service :: service where
  "failing_service calendar_id time_min time_max page_token = Inl HttpError"

definition empty_service :: service where
  "empty_service calendar_id time_min time_max page_token = Inr \<lparr>items = Some [], nextPageToken = None\<rparr>"

lemmas ev_defs = standup_def lunch_def untimed_def all_day_event_def timed_event_def default_config_def empty_db_def
  no_faults_def jan_1_def jan_1_end_def iso_examples_def midnight_def at_time_def

lemmas model_defs = store_period_in_database_def store_transaction_def begin_transaction_def execute_def commit_def
  rollback_def visible_def insert_or_replace_period_def insert_or_replace_event_def event_row_of_def row_times_def
  calculate_event_duration_def all_day_hours_def timed_hours_def parse_iso_def raise_bind_def sub_datetime_def
  wall_us_def ymd2ord_def days_before_year_def days_before_month_def days_in_months_def is_leap_def td_days_def td_hours_def
  hours_per_day_def get_dateTime_def store_category_def starts_with_space_def whitespace_codes_def is_upper_def
  get_period_key_def strftime_Ymd_def fmt2_def decimal.simps digit_def replace_Z_def
  is_period_in_database_def get_events_from_database_def event_of_row_def

lemmas report_defs = generate_report_def report_event_def report_times_def categorize_def
  dot_star_def newline_def empty_state_def sorted_by_duration_def recurring_of_def state_of_def
  strftime_Y_m_d_def

section \<open>Lemmas\<close>

subsection \<open>Period keys\<close>

lemma digit_inj: "digit a = digit b \<Longrightarrow> a mod 10 = b mod 10"
proof -
  assume h: "digit a = digit b"
  have d: "distinct ''0123456789''" by simp
  have "a mod 10 < length ''0123456789''" "b mod 10 < length ''0123456789''" by simp_all
  with d h show ?thesis unfolding digit_def by (simp only: nth_eq_iff_index_eq)
qed

lemma digit_not_underscore: "digit n \<noteq> CHR ''_''"
proof -
  have "n mod 10 < length ''0123456789''" by simp
  then have "digit n \<in> set ''0123456789''" unfolding digit_def by (rule nth_mem)
  then show ?thesis by auto
qed

lemma div_mod_10_eq: "(x::nat) div 10 = y div 10 \<Longrightarrow> x mod 10 = y mod 10 \<Longrightarrow> x = y"
  by (metis div_mult_mod_eq)

lemma fmt2_inj: "a < 100 \<Longrightarrow> b < 100 \<Longrightarrow> fmt2 a = fmt2 b \<Longrightarrow> a = b"
proof -
  assume a: "a < 100" and b: "b < 100" and h: "fmt2 a = fmt2 b"
  from h have h1: "digit (a div 10) = digit (b div 10)" and h0: "digit a = digit b"
    unfolding fmt2_def by simp_all
  have "(a div 10) mod 10 = (b div 10) mod 10" by (rule digit_inj[OF h1])
  have l: "a mod 10 = b mod 10" by (rule digit_inj[OF h0])
  note \<open>(a div 10) mod 10 = (b div 10) mod 10\<close>
  moreover from a b have "a div 10 < 10" "b div 10 < 10" by simp_all
  ultimately have "a div 10 = b div 10" by simp
  then show ?thesis using l by (rule div_mod_10_eq)
qed

lemma decimal_not_Nil: "decimal n \<noteq> []"
  by (subst decimal.simps) simp

lemma decimal_length_1: "length (decimal n) = 1 \<longleftrightarrow> n < 10"
proof (cases "n < 10")
  case True
  then show ?thesis by (simp add: decimal.simps[of n])
next
  case False
  then have "decimal n = decimal (n div 10) @ [digit n]" by (simp add: decimal.simps[of n])
  with False decimal_not_Nil[of "n div 10"] show ?thesis by (cases "decimal (n div 10)") simp_all
qed

lemma decimal_inj: "decimal a = decimal b \<Longrightarrow> a = b"
proof (induction a arbitrary: b rule: decimal.induct)
  case (1 n)
  show ?case
  proof (cases "n < 10")
    case True
    then have "length (decimal n) = 1" using decimal_length_1[of n] by simp
    with "1.prems" have "length (decimal b) = 1" by simp
    then have b: "b < 10" using decimal_length_1[of b] by simp
    from True b "1.prems" have "digit n = digit b"
      by (simp add: decimal.simps[of n] decimal.simps[of b])
    from digit_inj[OF this] True b show ?thesis by simp
  next
    case False
    then have "length (decimal n) \<noteq> 1" using decimal_length_1[of n] by simp
    with "1.prems" have "length (decimal b) \<noteq> 1" by simp
    then have b: "\<not> b < 10" using decimal_length_1[of b] by simp
    from False b "1.prems" have "decimal (n div 10) @ [digit n] = decimal (b div 10) @ [digit b]"
      by (simp add: decimal.simps[of n] decimal.simps[of b])
    then have r: "decimal (n div 10) = decimal (b div 10)" and d: "digit n = digit b" by simp_all
    from "1.IH"[OF False r] have "n div 10 = b div 10" .
    then show ?thesis using digit_inj[OF d] by (rule div_mod_10_eq)
  qed
qed

lemma decimal_no_underscore: "CHR ''_'' \<notin> set (decimal n)"
proof (induction n rule: decimal.induct)
  case (1 n)
  show ?case
  proof (cases "n < 10")
    case True
    then show ?thesis by (simp add: decimal.simps[of n] digit_not_underscore[symmetric])
  next
    case False
    with "1.IH" show ?thesis
      by (simp add: decimal.simps[of n] digit_not_underscore[symmetric])
  qed
qed

lemma decimal_four:
  assumes "1000 \<le> n" "n < 10000"
  shows "decimal n = fmt4 n"
proof -
  from assms have a: "\<not> n < 10" "\<not> n div 10 < 10" "\<not> n div 100 < 10" "n div 1000 < 10" by simp_all
  have d: "n div 10 div 10 = n div 100" "n div 100 div 10 = n div 1000"
    by (simp_all add: div_mult2_eq[symmetric])
  have "decimal n = decimal (n div 10) @ [digit n]" using a(1) by (simp add: decimal.simps[of n])
  also have "decimal (n div 10) = decimal (n div 100) @ [digit (n div 10)]"
    using a(2) d(1) by (simp add: decimal.simps[of "n div 10"])
  also have "decimal (n div 100) = decimal (n div 1000) @ [digit (n div 100)]"
    using a(3) d(2) by (simp add: decimal.simps[of "n div 100"])
  also have "decimal (n div 1000) = [digit (n div 1000)]"
    using a(4) by (simp add: decimal.simps[of "n div 1000"])
  finally show ?thesis by (simp add: fmt4_def)
qed

lemma strftime_Ymd_no_underscore: "CHR ''_'' \<notin> set (strftime_Ymd d)"
  by (simp add: strftime_Ymd_def fmt2_def decimal_no_underscore digit_not_underscore[symmetric])

lemma strftime_Ymd_inj:
  assumes "valid_date a" "valid_date b" "strftime_Ymd a = strftime_Ymd b"
  shows "year a = year b \<and> month a = month b \<and> day a = day b"
proof -
  from assms(3) have "length (strftime_Ymd a) = length (strftime_Ymd b)" by simp
  then have "length (decimal (year a)) = length (decimal (year b))"
    by (simp add: strftime_Ymd_def fmt2_def)
  with assms(3) have y: "decimal (year a) = decimal (year b)"
    and md: "fmt2 (month a) @ fmt2 (day a) = fmt2 (month b) @ fmt2 (day b)"
    unfolding strftime_Ymd_def by simp_all
  from md have m: "fmt2 (month a) = fmt2 (month b)" and d: "fmt2 (day a) = fmt2 (day b)"
    by (simp_all add: fmt2_def)
  from assms(1,2) show ?thesis
    using decimal_inj[OF y] fmt2_inj[OF _ _ m] fmt2_inj[OF _ _ d]
    by (simp add: valid_date_def)
qed

lemma split_at_underscore:
  assumes "CHR ''_'' \<notin> set a" "CHR ''_'' \<notin> set b" "a @ CHR ''_'' # x = b @ CHR ''_'' # y"
  shows "a = b \<and> x = y"
proof -
  from assms(1) have "takeWhile (\<lambda>c. c \<noteq> CHR ''_'') (a @ CHR ''_'' # x) = a"
    by (auto simp: takeWhile_tail)
  moreover from assms(2) have "takeWhile (\<lambda>c. c \<noteq> CHR ''_'') (b @ CHR ''_'' # y) = b"
    by (auto simp: takeWhile_tail)
  ultimately have "a = b" using assms(3) by simp
  with assms(3) show ?thesis by simp
qed

lemma key_eq:
  "get_period_key k s e = get_period_key k s' e' \<longleftrightarrow> strftime_Ymd s = strftime_Ymd s' \<and> strftime_Ymd e = strftime_Ymd e'"
proof
  assume "get_period_key k s e = get_period_key k s' e'"
  then have "strftime_Ymd s @ CHR ''_'' # strftime_Ymd e = strftime_Ymd s' @ CHR ''_'' # strftime_Ymd e'"
    by (simp add: get_period_key_def)
  from split_at_underscore[OF strftime_Ymd_no_underscore strftime_Ymd_no_underscore this]
  show "strftime_Ymd s = strftime_Ymd s' \<and> strftime_Ymd e = strftime_Ymd e'" .
next
  assume "strftime_Ymd s = strftime_Ymd s' \<and> strftime_Ymd e = strftime_Ymd e'"
  then show "get_period_key k s e = get_period_key k s' e'" by (simp add: get_period_key_def)
qed

lemma same_time_of_day_eq:
  "same_time_of_day a b \<Longrightarrow> year a = year b \<Longrightarrow> month a = month b \<Longrightarrow> day a = day b \<Longrightarrow> a = b"
  by (simp add: same_time_of_day_def)

subsection \<open>Runs of inserts\<close>

lemma upsert_all_append: "upsert_all (rs @ [r]) tbl = filter (\<lambda>x. row_id x \<noteq> row_id r) (upsert_all rs tbl) @ [r]"
  by (induction rs arbitrary: tbl) simp_all

lemma upsert_all_split:
  "upsert_all rs tbl = filter (\<lambda>x. row_id x \<notin> row_id ` set rs) tbl @ upsert_all rs []"
proof (induction rs arbitrary: tbl)
  case Nil
  then show ?case by simp
next
  case (Cons r rs)
  have "upsert_all (r # rs) tbl = upsert_all rs (filter (\<lambda>x. row_id x \<noteq> row_id r) tbl @ [r])" by simp
  also have "\<dots> = filter (\<lambda>x. row_id x \<notin> row_id ` set rs) (filter (\<lambda>x. row_id x \<noteq> row_id r) tbl @ [r]) @ upsert_all rs []"
    by (rule Cons.IH)
  also have "\<dots> = filter (\<lambda>x. row_id x \<notin> row_id ` set (r # rs)) tbl @ (filter (\<lambda>x. row_id x \<notin> row_id ` set rs) [r] @ upsert_all rs [])"
    by (auto intro: filter_cong)
  also have "filter (\<lambda>x. row_id x \<notin> row_id ` set rs) [r] @ upsert_all rs [] = upsert_all rs [r]"
    using Cons.IH[of "[r]"] by simp
  finally show ?case by simp
qed

lemma set_upsert_all: "set (upsert_all rs tbl) \<subseteq> set tbl \<union> set rs"
  by (induction rs arbitrary: tbl) (auto, fastforce)

lemma upsert_all_ids: "x \<in> set (upsert_all rs []) \<Longrightarrow> row_id x \<in> row_id ` set rs"
  using set_upsert_all[of rs "[]"] by auto


lemma upsert_all_member:
  "r \<in> set rs \<Longrightarrow> \<exists>r' \<in> set (upsert_all rs tbl). r' \<in> set rs \<and> row_id r' = row_id r"
proof (induction rs arbitrary: r rule: rev_induct)
  case Nil
  then show ?case by simp
next
  case (snoc x xs)
  show ?case
  proof (cases "row_id r = row_id x")
    case True
    then show ?thesis by (auto simp: upsert_all_append)
  next
    case False
    with snoc.prems have "r \<in> set xs" by auto
    from snoc.IH[OF this] obtain r' where "r' \<in> set (upsert_all xs tbl)" "r' \<in> set xs" "row_id r' = row_id r" by blast
    with False show ?thesis by (auto simp: upsert_all_append)
  qed
qed

lemma distinct_upsert_all:
  "distinct (map row_id tbl) \<Longrightarrow> distinct (map row_id (upsert_all rs tbl))"
proof (induction rs arbitrary: tbl)
  case Nil
  then show ?case by simp
next
  case (Cons r rs)
  have "distinct (map row_id (filter (\<lambda>x. row_id x \<noteq> row_id r) tbl @ [r]))"
    using Cons.prems by (auto simp: distinct_map_filter)
  then show ?case using Cons.IH by simp
qed

subsection \<open>The transaction of the store\<close>

lemma execute_committed: "execute q st g c = (r, c') \<Longrightarrow> committed c' = committed c"
  by (auto simp: execute_def split: if_splits)

lemma store_events_committed:
  "store_events f cfg q key i evs c = (r, c') \<Longrightarrow> committed c' = committed c"
proof (induction evs arbitrary: i c)
  case Nil
  then show ?case by simp
next
  case (Cons ev evs)
  show ?case
  proof (cases "event_row_of f cfg key ev")
    case (Inl e)
    with Cons.prems show ?thesis by simp
  next
    case (Inr ro)
    show ?thesis
    proof (cases ro)
      case None
      with Inr Cons show ?thesis by simp
    next
      case (Some row)
      obtain r1 c1 where ex: "execute q (InsertEvent i) (insert_or_replace_event row) c = (r1, c1)"
        by (cases "execute q (InsertEvent i) (insert_or_replace_event row) c")
      then have c1: "committed c1 = committed c" by (rule execute_committed)
      show ?thesis
      proof (cases r1)
        case None
        with Cons.prems Inr Some ex have "store_events f cfg q key (Suc i) evs c1 = (r, c')" by simp
        from Cons.IH[OF this] c1 show ?thesis by simp
      next
        case (Some e)
        with Cons.prems Inr \<open>ro = Some row\<close> ex have "c' = c1" by simp
        with c1 show ?thesis by simp
      qed
    qed
  qed
qed

lemma store_events_success:
  "txn c = Some t \<Longrightarrow> store_events f cfg q key i evs c = (None, c') \<Longrightarrow>
     c' = c\<lparr>txn := Some (t\<lparr>events := upsert_all (rows_of f cfg key evs) (events t)\<rparr>)\<rparr>
     \<and> (\<forall>ev \<in> set evs. \<exists>ro. event_row_of f cfg key ev = Inr ro)"
proof (induction evs arbitrary: i c t)
  case Nil
  then show ?case by simp
next
  case (Cons ev evs)
  show ?case
  proof (cases "event_row_of f cfg key ev")
    case (Inl e)
    with Cons.prems show ?thesis by simp
  next
    case (Inr ro)
    show ?thesis
    proof (cases ro)
      case None
      with Inr Cons.prems have "store_events f cfg q key (Suc i) evs c = (None, c')" by simp
      from Cons.IH[OF Cons.prems(1) this] Inr None show ?thesis by simp
    next
      case (Some row)
      from Cons.prems Inr Some have nf: "\<not> q (InsertEvent i)"
        by (auto simp: execute_def split: if_splits)
      define t1 where "t1 = t\<lparr>events := filter (\<lambda>x. row_id x \<noteq> row_id row) (events t) @ [row]\<rparr>"
      define c1 where "c1 = c\<lparr>txn := Some t1\<rparr>"
      have t1: "txn c1 = Some t1" by (simp add: c1_def)
      from Cons.prems Inr Some nf have "store_events f cfg q key (Suc i) evs c1 = (None, c')"
        by (simp add: execute_def c1_def t1_def visible_def insert_or_replace_event_def)
      from Cons.IH[OF t1 this] Inr Some show ?thesis
        by (simp add: c1_def t1_def)
    qed
  qed
qed

lemma store_transaction_success:
  assumes "store_transaction f cfg q key ptype s e evs c0 = (None, c)"
  shows "txn c0 = None \<and> c = \<lparr>committed = (committed c0)\<lparr>periods := (periods (committed c0))(key \<mapsto>
              \<lparr>period_type = ptype, start_date = s, end_date = e, is_complete = 1\<rparr>),
            events := upsert_all (rows_of f cfg key evs) (events (committed c0))\<rparr>, txn = None\<rparr>
       \<and> (\<forall>ev \<in> set evs. \<exists>ro. event_row_of f cfg key ev = Inr ro)"
proof -
  from assms have b: "\<not> q Begin" "txn c0 = None"
    by (auto simp: store_transaction_def begin_transaction_def split: if_splits)
  define c1 where "c1 = c0\<lparr>txn := Some (committed c0)\<rparr>"
  from assms b have p: "\<not> q InsertPeriod"
    by (auto simp: store_transaction_def begin_transaction_def execute_def split: if_splits)
  define c2 where "c2 = c1\<lparr>txn := Some (insert_or_replace_period key
       \<lparr>period_type = ptype, start_date = s, end_date = e, is_complete = 1\<rparr> (visible c1))\<rparr>"
  obtain r3 c3 where se: "store_events f cfg q key 0 evs c2 = (r3, c3)"
    by (cases "store_events f cfg q key 0 evs c2")
  from assms b p se have r3: "r3 = None" and cm: "commit q c3 = (None, c)"
    by (auto simp: store_transaction_def begin_transaction_def execute_def c1_def c2_def split: option.splits)
  have t2: "txn c2 = Some (insert_or_replace_period key
       \<lparr>period_type = ptype, start_date = s, end_date = e, is_complete = 1\<rparr> (visible c1))"
    by (simp add: c2_def)
  from store_events_success[OF t2 se[unfolded r3]] have
    c3: "c3 = c2\<lparr>txn := Some ((insert_or_replace_period key
       \<lparr>period_type = ptype, start_date = s, end_date = e, is_complete = 1\<rparr> (visible c1))\<lparr>events := upsert_all (rows_of f cfg key evs) (events (insert_or_replace_period key
       \<lparr>period_type = ptype, start_date = s, end_date = e, is_complete = 1\<rparr> (visible c1)))\<rparr>)\<rparr>"
    and ok: "\<forall>ev \<in> set evs. \<exists>ro. event_row_of f cfg key ev = Inr ro" by simp_all
  from cm have "c = \<lparr>committed = visible c3, txn = None\<rparr>"
    by (auto simp: commit_def split: if_splits)
  with c3 b ok show ?thesis
    by (auto simp: c1_def c2_def visible_def insert_or_replace_period_def)
qed

lemma store_transaction_failure:
  assumes "store_transaction f cfg q key ptype s e evs c0 = (Some err, c)"
  shows "committed c = committed c0"
proof -
  show ?thesis
  proof (cases "begin_transaction q c0")
    case (Pair r1 c1)
    then have k1: "committed c1 = committed c0"
      by (auto simp: begin_transaction_def split: if_splits)
    show ?thesis
    proof (cases r1)
      case (Some a)
      with assms Pair k1 show ?thesis by (simp add: store_transaction_def)
    next
      case None
      obtain r2 c2 where ex: "execute q InsertPeriod (insert_or_replace_period key
          \<lparr>period_type = ptype, start_date = s, end_date = e, is_complete = 1\<rparr>) c1 = (r2, c2)"
        by (cases "execute q InsertPeriod (insert_or_replace_period key
          \<lparr>period_type = ptype, start_date = s, end_date = e, is_complete = 1\<rparr>) c1")
      then have k2: "committed c2 = committed c0" using k1 by (simp add: execute_committed)
      show ?thesis
      proof (cases r2)
        case (Some a)
        with assms Pair None ex k2 show ?thesis by (simp add: store_transaction_def)
      next
        case n2: None
        obtain r3 c3 where se: "store_events f cfg q key 0 evs c2 = (r3, c3)"
          by (cases "store_events f cfg q key 0 evs c2")
        then have k3: "committed c3 = committed c0" using k2 by (simp add: store_events_committed)
        show ?thesis
        proof (cases r3)
          case (Some a)
          with assms Pair None ex n2 se k3 show ?thesis by (simp add: store_transaction_def)
        next
          case n3: None
          with assms Pair None ex n2 se have "commit q c3 = (Some err, c)"
            by (simp add: store_transaction_def)
          then have "c = c3" by (auto simp: commit_def split: if_splits)
          with k3 show ?thesis by simp
        qed
      qed
    qed
  qed
qed

lemma store_failure:
  assumes "\<forall>c. db_conn = Some c \<longrightarrow> txn c = None"
    and "store_period_in_database f cfg q db_conn ptype s e evs = (False, db')"
  shows "db' = db_conn"
proof (cases db_conn)
  case None
  with assms(2) show ?thesis by (simp add: store_period_in_database_def)
next
  case (Some c0)
  with assms(1) have idle: "txn c0 = None" by simp
  obtain r c where st: "store_transaction f cfg q (get_period_key ptype s e) ptype s e evs c0 = (r, c)"
    by (cases "store_transaction f cfg q (get_period_key ptype s e) ptype s e evs c0")
  with assms(2) Some obtain err where r: "r = Some err" and d: "db' = Some (rollback c)"
    by (cases r) (auto simp: store_period_in_database_def)
  from store_transaction_failure[OF st[unfolded r]] idle have "rollback c = c0"
    by (simp add: rollback_def)
  with d Some show ?thesis by simp
qed

lemma store_success:
  assumes "store_period_in_database f cfg q db_conn ptype s e evs = (True, db')"
  shows "\<exists>c0. db_conn = Some c0 \<and> txn c0 = None \<and>
     db' = Some \<lparr>committed = (committed c0)\<lparr>periods := (periods (committed c0))(get_period_key ptype s e \<mapsto>
              \<lparr>period_type = ptype, start_date = s, end_date = e, is_complete = 1\<rparr>),
            events := upsert_all (rows_of f cfg (get_period_key ptype s e) evs) (events (committed c0))\<rparr>, txn = None\<rparr>
     \<and> (\<forall>ev \<in> set evs. \<exists>ro. event_row_of f cfg (get_period_key ptype s e) ev = Inr ro)"
proof (cases db_conn)
  case None
  with assms show ?thesis by (simp add: store_period_in_database_def)
next
  case (Some c0)
  obtain r c where st: "store_transaction f cfg q (get_period_key ptype s e) ptype s e evs c0 = (r, c)"
    by (cases "store_transaction f cfg q (get_period_key ptype s e) ptype s e evs c0")
  with assms Some have r: "r = None" and d: "db' = Some c"
    by (cases r; simp add: store_period_in_database_def)+
  from store_transaction_success[OF st[unfolded r]] Some d show ?thesis by simp
qed

lemma event_row_of_valid:
  assumes "event_row_of f cfg key ev = Inr ro" "ev_id ev = Some i" "ev_summary ev = Some t"
  shows "\<exists>r. ro = Some r \<and> row_id r = i \<and> row_summary r = t \<and> row_period_key r = key"
  using assms
  by (auto simp: event_row_of_def raise_bind_def Let_def split: sum.splits prod.splits)

lemma event_row_of_row:
  assumes "event_row_of f cfg key ev = Inr (Some r)"
  shows "ev_id ev = Some (row_id r) \<and> ev_summary ev = Some (row_summary r) \<and> row_period_key r = key"
  using assms
  by (auto simp: event_row_of_def raise_bind_def Let_def split: sum.splits prod.splits option.splits)

lemma event_row_of_skip:
  assumes "event_row_of f cfg key ev = Inr None"
  shows "ev_id ev = None \<or> ev_summary ev = None"
  using assms
  by (auto simp: event_row_of_def raise_bind_def Let_def split: sum.splits prod.splits option.splits)

lemma rows_of_member:
  "ev \<in> set evs \<Longrightarrow> event_row_of f cfg key ev = Inr (Some r) \<Longrightarrow> r \<in> set (rows_of f cfg key evs)"
  by (induction evs) (auto split: sum.splits option.splits)

lemma rows_of_key: "r \<in> set (rows_of f cfg key evs) \<Longrightarrow> row_period_key r = key"
  by (induction evs) (auto split: sum.splits option.splits dest: event_row_of_row)

lemma rows_of_ids:
  "\<forall>ev \<in> set evs. \<exists>ro. event_row_of f cfg key ev = Inr ro \<Longrightarrow>
   map row_id (rows_of f cfg key evs) = stored_ids evs"
proof (induction evs)
  case Nil
  then show ?case by (simp add: stored_ids_def)
next
  case (Cons ev evs)
  then obtain ro where ro: "event_row_of f cfg key ev = Inr ro" by auto
  from Cons have ih: "map row_id (rows_of f cfg key evs) = stored_ids evs" by simp
  show ?case
  proof (cases ro)
    case None
    with ro ih event_row_of_skip[of f cfg key ev] show ?thesis
      by (auto simp: stored_ids_def split: option.splits)
  next
    case (Some r)
    with ro ih event_row_of_row[of f cfg key ev r] show ?thesis
      by (auto simp: stored_ids_def split: option.splits)
  qed
qed



lemma ev_id_event_of_row: "ev_id (event_of_row r) = Some (row_id r)"
  by (simp add: event_of_row_def)

lemma filter_map_event_of_row:
  "filter (\<lambda>ev. ev_id ev \<notin> Some ` ids) (map event_of_row rows) =
   map event_of_row (filter (\<lambda>r. row_id r \<notin> ids) rows)"
  by (induction rows) (auto simp: ev_id_event_of_row)

subsection \<open>The examples\<close>

lemma after_custom_eq:
  "store_period_in_database iso_examples default_config no_faults (Some empty_db)
      ''custom'' jan_1 jan_1_end [standup, lunch] = (True, after_custom)"
  unfolding after_custom_def by (simp add: ev_defs model_defs Let_def)

lemma after_custom_some: "after_custom = Some (the after_custom)"
  unfolding after_custom_def by (simp add: ev_defs model_defs Let_def)

lemma after_month_eq:
  "store_period_in_database iso_examples default_config no_faults (Some (the after_custom))
      ''month_1'' jan_1 jan_31_end [lunch] = (True, Some (the after_month))"
  unfolding after_month_def after_custom_def by (simp add: ev_defs model_defs Let_def jan_31_end_def)

lemma fetch_paged:
  "fetch_calendars paged_service [''primary''] jan_1 jan_1_end [] = Some (Inr [standup, lunch])"
  by (simp add: fetch_pages.simps paged_service_def no_token_def)

lemma fetch_failing:
  "fetch_calendars failing_service [''primary''] jan_1 jan_1_end [] = Some (Inl HttpError)"
  by (simp add: fetch_pages.simps failing_service_def)

lemma fetch_empty:
  "fetch_calendars empty_service [''primary''] jan_1 jan_1_end [] = Some (Inr [])"
  by (simp add: fetch_pages.simps empty_service_def no_token_def)

subsection \<open>Durations\<close>



subsection \<open>Titles and reports\<close>

lemma recurring_rows_empty: "recurring_rows totals counts = []"
  by (induction totals) auto

lemma category_match_Some:
  assumes "length tag = 3" "\<forall>c \<in> set tag. is_upper c" "sep = CHR '' '' \<or> sep = CHR ''_''"
  shows "category_match (CHR ''@'' # tag @ sep # rest) = Some (tag, dot_star rest)"
proof -
  from assms(1) obtain b c d where tag: "tag = [b, c, d]"
    by (auto simp: length_Suc_conv numeral_3_eq_3)
  with assms(2,3) show ?thesis by auto
qed

lemma category_match_SomeD:
  assumes "category_match title = Some (tag, sub)"
  shows "\<exists>sep rest. title = CHR ''@'' # tag @ sep # rest \<and> length tag = 3 \<and> (\<forall>c \<in> set tag. is_upper c) \<and>
           (sep = CHR '' '' \<or> sep = CHR ''_'') \<and> sub = dot_star rest"
  using assms
  by (induction title rule: category_match.induct) (auto split: if_splits)

lemma categorize_rule:
  "(title = CHR ''@'' # tag @ sep # rest \<and> length tag = 3 \<and> (\<forall>c \<in> set tag. is_upper c) \<and>
      (sep = CHR '' '' \<or> sep = CHR ''_'') \<longrightarrow>
        categorize title = (tag, takeWhile (\<lambda>c. c \<noteq> newline) rest) \<and>
        (newline \<notin> set rest \<longrightarrow> categorize title = (tag, rest))) \<and>
   ((\<nexists>tag sep rest. title = CHR ''@'' # tag @ sep # rest \<and> length tag = 3 \<and> (\<forall>c \<in> set tag. is_upper c) \<and>
      (sep = CHR '' '' \<or> sep = CHR ''_'')) \<longrightarrow> categorize title = (''Other'', title))"
proof (intro conjI impI)
  assume h: "title = CHR ''@'' # tag @ sep # rest \<and> length tag = 3 \<and> (\<forall>c \<in> set tag. is_upper c) \<and>
      (sep = CHR '' '' \<or> sep = CHR ''_'')"
  then have m: "category_match title = Some (tag, dot_star rest)"
    using category_match_Some[of tag sep rest] by simp
  then show "categorize title = (tag, takeWhile (\<lambda>c. c \<noteq> newline) rest)"
    by (simp add: categorize_def dot_star_def)
  {
    assume "newline \<notin> set rest"
    then have "takeWhile (\<lambda>c. c \<noteq> newline) rest = rest" by (auto intro: takeWhile_eq_all_conv[THEN iffD2])
    with m show "categorize title = (tag, rest)" by (simp add: categorize_def dot_star_def)
  }
next
  assume n: "\<nexists>tag sep rest. title = CHR ''@'' # tag @ sep # rest \<and> length tag = 3 \<and> (\<forall>c \<in> set tag. is_upper c) \<and>
      (sep = CHR '' '' \<or> sep = CHR ''_'')"
  have "category_match title = None"
  proof (cases "category_match title")
    case None
    then show ?thesis .
  next
    case (Some p)
    obtain tag sub where "p = (tag, sub)" by (cases p)
    with Some category_match_SomeD[of title tag sub] n show ?thesis by blast
  qed
  then show "categorize title = (''Other'', title)" by (simp add: categorize_def)
qed

lemma categorize_examples:
  "categorize ''@ENG Fix bug'' = (''ENG'', ''Fix bug'') \<and>
   categorize ''@ENG_Fix bug'' = (''ENG'', ''Fix bug'') \<and>
   categorize ''Team sync'' = (''Other'', ''Team sync'') \<and>
   categorize ''@ENG @OPS dual tag'' = (''ENG'', ''@OPS dual tag'')"
  by (simp add: categorize_def is_upper_def dot_star_def newline_def)

lemma report_event_without_start:
  "ev_summary ev = Some t \<Longrightarrow> ev_start ev = None \<Longrightarrow> report_event f cfg ev st = Inl KeyError"
  by (simp add: report_event_def report_times_def raise_bind_def split: prod.splits)

lemma report_recurring_rows_empty:
  "generate_report f cfg evs = Inr (Report st rows) \<Longrightarrow> rows = []"
  by (auto simp: generate_report_def raise_bind_def recurring_rows_empty split: if_splits sum.splits)

lemma report_event_neither_raises:
  assumes "ev_summary ev = Some t"
    and "\<not> (\<exists>st en sd ed. ev_start ev = Some st \<and> ev_end ev = Some en \<and>
              tf_date st = Some sd \<and> tf_date en = Some ed)"
    and "\<not> (\<exists>st en a b. ev_start ev = Some st \<and> ev_end ev = Some en \<and>
              tf_dateTime st = Some a \<and> tf_dateTime en = Some b)"
  shows "\<exists>err. report_event f cfg ev st0 = Inl err"
proof -
  have "\<exists>err. report_times f cfg ev = Inl err"
    using assms(2,3)
    by (auto simp: report_times_def raise_bind_def split: option.splits sum.splits)
  then show ?thesis
    using assms(1) by (auto simp: report_event_def raise_bind_def split: prod.splits)
qed

lemma not_space_underscore: "\<not> starts_with_space (CHR ''_'' # rest)"
  by (simp add: starts_with_space_def whitespace_codes_def)

lemma store_category_underscore:
  "length tag = 3 \<Longrightarrow> store_category (CHR ''@'' # tag @ CHR ''_'' # rest) = ''Other''"
proof -
  assume "length tag = 3"
  then obtain b c d where "tag = [b, c, d]"
    by (auto simp: length_Suc_conv numeral_3_eq_3)
  then show ?thesis
    by (simp add: store_category_def not_space_underscore)
qed

section \<open>Claims\<close>

text \<open>
  C1. A call of the store on an idle connection either returns success, and then the
  period of the derived key is complete and every event that has an id and a title has
  a committed row under that key, or it returns failure, and then the connection is the
  one before the call, so that \<open>is_period_in_database\<close> and \<open>get_events_from_database\<close>
  answer as before for every key. This holds wherever SQLite raises (\<open>sql_fails\<close>) and
  whichever event raises. The witness injects a fault at the insert of the second of two
  events.
\<close>

theorem store_all_or_nothing:
  assumes "idle db_conn"
    and "store_period_in_database f cfg sql_fails db_conn ptype s e evs = (ok, db')"
  shows "idle db' \<and>
        (if ok
         then is_period_in_database no_faults db' (get_period_key ptype s e) \<and>
              (\<exists>c. db' = Some c \<and> txn c = None \<and>
                 (\<forall>ev \<in> set evs. \<forall>i t. ev_id ev = Some i \<and> ev_summary ev = Some t \<longrightarrow>
                    (\<exists>r \<in> set (events (committed c)).
                       row_id r = i \<and> row_period_key r = get_period_key ptype s e)))
         else db' = db_conn \<and>
              (\<forall>k. is_period_in_database no_faults db' k = is_period_in_database no_faults db_conn k \<and>
                   get_events_from_database no_faults db' k = get_events_from_database no_faults db_conn k))"
proof (cases ok)
  case False
  with assms have "db' = db_conn"
    using store_failure[of db_conn f cfg sql_fails ptype s e evs db']
    by (auto simp: idle_def split: option.splits)
  with False assms(1) show ?thesis by simp
next
  case True
  let ?key = "get_period_key ptype s e"
  from assms(2) True have call: "store_period_in_database f cfg sql_fails db_conn ptype s e evs = (True, db')"
    by simp
  from store_success[OF call] obtain c0 :: connection where
    d: "db' = Some \<lparr>committed = (committed c0)\<lparr>periods := (periods (committed c0))(?key \<mapsto>
              \<lparr>period_type = ptype, start_date = s, end_date = e, is_complete = 1\<rparr>),
            events := upsert_all (rows_of f cfg ?key evs) (events (committed c0))\<rparr>, txn = None\<rparr>"
    and ok: "\<forall>ev \<in> set evs. \<exists>ro. event_row_of f cfg ?key ev = Inr ro" by blast
  have written: "\<exists>r \<in> set (upsert_all (rows_of f cfg ?key evs) (events (committed c0))).
      row_id r = i \<and> row_period_key r = ?key"
    if "ev \<in> set evs" "ev_id ev = Some i" "ev_summary ev = Some t" for ev i t
  proof -
    from ok that(1) obtain ro where ro: "event_row_of f cfg ?key ev = Inr ro" by blast
    from event_row_of_valid[OF ro that(2,3)] obtain r where r: "ro = Some r" "row_id r = i" by blast
    with ro that(1) have "r \<in> set (rows_of f cfg ?key evs)" by (simp add: rows_of_member)
    from upsert_all_member[OF this] r(2) rows_of_key show ?thesis by metis
  qed
  from d have "is_period_in_database no_faults db' ?key"
    by (simp add: is_period_in_database_def no_faults_def visible_def)
  moreover from d have "idle db'" by (simp add: idle_def)
  ultimately show ?thesis using True d written by auto
qed

theorem store_all_or_nothing_witness:
  "idle (Some empty_db) \<and>
   store_period_in_database iso_examples default_config (\<lambda>st. st = InsertEvent 1) (Some empty_db)
      ''custom'' jan_1 jan_1_end [standup, lunch] = (False, Some empty_db) \<and>
   \<not> is_period_in_database no_faults (Some empty_db) (get_period_key ''custom'' jan_1 jan_1_end) \<and>
   get_events_from_database no_faults (Some empty_db) (get_period_key ''custom'' jan_1 jan_1_end) = []"
proof -
  have i: "idle (Some empty_db)" by (simp add: idle_def empty_db_def)
  have s: "store_period_in_database iso_examples default_config (\<lambda>st. st = InsertEvent 1) (Some empty_db)
      ''custom'' jan_1 jan_1_end [standup, lunch] = (False, Some empty_db)"
    by (simp add: ev_defs model_defs Let_def)
  from store_all_or_nothing[OF i s] i s show ?thesis
    by (simp add: is_period_in_database_def get_events_from_database_def visible_def empty_db_def no_faults_def)
qed

text \<open>
  C2, as the code has it. \<open>get_events\<close> first asks whether the period of the derived key
  is complete. On a hit it returns what \<open>get_events_from_database\<close> reads for that key. On
  a miss with a service it returns the events the service sent. In no case does it write:
  the connection it leaves is the connection it was given. Storing a period is a separate
  call, which the menu of the program makes for its own entry.

  The claim says that on a miss the fetched events are handed to the store. The
  counterexample is a miss on the empty database: the two fetched events are returned, the
  database is still the empty one, and it is not the database \<open>after_custom\<close> that storing
  them would have left.
\<close>

theorem get_events_cache_hit_no_store:
  "(is_period_in_database sql_fails db_conn (get_period_key ptype s e) \<longrightarrow>
      get_events sql_fails cfg svc db_conn s e ptype =
        Some (Inr (get_events_from_database sql_fails db_conn (get_period_key ptype s e)), db_conn)) \<and>
   (\<not> is_period_in_database sql_fails db_conn (get_period_key ptype s e) \<and> svc = Some sv \<and>
    fetch_calendars sv (case calendars cfg of None \<Rightarrow> [''primary''] | Some cs \<Rightarrow> cs) s e [] = Some (Inr fetched) \<longrightarrow>
      get_events sql_fails cfg svc db_conn s e ptype = Some (Inr fetched, db_conn)) \<and>
   (\<forall>r db'. get_events sql_fails cfg svc db_conn s e ptype = Some (r, db') \<longrightarrow> db' = db_conn)"
  by (auto simp: get_events_def Let_def split: option.splits sum.splits py_error.splits)

theorem get_events_cache_hit_no_store_witness:
  "is_period_in_database no_faults after_custom (get_period_key ''custom'' jan_1 jan_1_end) \<and>
   get_events no_faults default_config (Some failing_service) after_custom jan_1 jan_1_end ''custom'' =
     Some (Inr (get_events_from_database no_faults after_custom ''custom_20240101_20240101''), after_custom) \<and>
   \<not> is_period_in_database no_faults (Some empty_db) (get_period_key ''custom'' jan_1 jan_1_end) \<and>
   get_events no_faults default_config (Some paged_service) (Some empty_db) jan_1 jan_1_end ''custom'' =
     Some (Inr [standup, lunch], Some empty_db)"
proof -
  have k: "get_period_key ''custom'' jan_1 jan_1_end = ''custom_20240101_20240101''"
    by (simp add: ev_defs model_defs)
  have hit: "is_period_in_database no_faults after_custom (get_period_key ''custom'' jan_1 jan_1_end)"
    unfolding after_custom_def by (simp add: ev_defs model_defs Let_def)
  have miss: "\<not> is_period_in_database no_faults (Some empty_db) (get_period_key ''custom'' jan_1 jan_1_end)"
    by (simp add: is_period_in_database_def no_faults_def visible_def empty_db_def)
  have cals: "(case calendars default_config of None \<Rightarrow> [''primary''] | Some cs \<Rightarrow> cs) = [''primary'']"
    by (simp add: default_config_def)
  from get_events_cache_hit_no_store[of no_faults after_custom "''custom''" jan_1 jan_1_end default_config
      "Some failing_service"] hit
    get_events_cache_hit_no_store[of no_faults "Some empty_db" "''custom''" jan_1 jan_1_end default_config
      "Some paged_service" paged_service "[standup, lunch]"] miss fetch_paged cals k
  show ?thesis by simp
qed

theorem get_events_miss_counterexample:
  "\<not> is_period_in_database no_faults (Some empty_db) (get_period_key ''custom'' jan_1 jan_1_end) \<and>
   get_events no_faults default_config (Some paged_service) (Some empty_db) jan_1 jan_1_end ''custom'' =
     Some (Inr [standup, lunch], Some empty_db) \<and>
   store_period_in_database iso_examples default_config no_faults (Some empty_db) ''custom'' jan_1 jan_1_end
     [standup, lunch] = (True, after_custom) \<and>
   after_custom \<noteq> Some empty_db"
proof -
  have miss: "\<not> is_period_in_database no_faults (Some empty_db) (get_period_key ''custom'' jan_1 jan_1_end)"
    by (simp add: is_period_in_database_def no_faults_def visible_def empty_db_def)
  have cals: "(case calendars default_config of None \<Rightarrow> [''primary''] | Some cs \<Rightarrow> cs) = [''primary'']"
    by (simp add: default_config_def)
  have g: "get_events no_faults default_config (Some paged_service) (Some empty_db) jan_1 jan_1_end ''custom'' =
     Some (Inr [standup, lunch], Some empty_db)"
    using miss fetch_paged cals by (simp add: get_events_def Let_def)
  have "is_period_in_database no_faults after_custom (get_period_key ''custom'' jan_1 jan_1_end)"
    unfolding after_custom_def by (simp add: ev_defs model_defs Let_def)
  with miss have ne: "after_custom \<noteq> Some empty_db" by auto
  from miss g after_custom_eq ne show ?thesis by simp
qed

text \<open>
  C3, as the code has it. When the service raises \<^verbatim>\<open>HttpError\<close> on a miss,
  \<open>get_events\<close> returns the empty list; when the \<^verbatim>\<open>SELECT\<close> of
  \<open>get_events_from_database\<close> raises, that function returns the empty list, and so does
  \<open>get_events\<close> on a hit.

  The claim says that the caller can tell such a failure from a success without events.
  The counterexample: the failing service and the service with an empty calendar give
  equal results, and the failing read of a stored period equals the read of a period that
  was never stored, although the stored period has events.
\<close>

theorem failure_returns_empty_list:
  "(\<not> is_period_in_database sql_fails db_conn (get_period_key ptype s e) \<and>
    fetch_calendars sv (case calendars cfg of None \<Rightarrow> [''primary''] | Some cs \<Rightarrow> cs) s e [] = Some (Inl HttpError) \<longrightarrow>
      get_events sql_fails cfg (Some sv) db_conn s e ptype = Some (Inr [], db_conn)) \<and>
   (sql_fails SelectEvents \<longrightarrow> get_events_from_database sql_fails db_conn k = []) \<and>
   (is_period_in_database sql_fails db_conn (get_period_key ptype s e) \<and> sql_fails SelectEvents \<longrightarrow>
      get_events sql_fails cfg svc db_conn s e ptype = Some (Inr [], db_conn))"
  by (auto simp: get_events_def get_events_from_database_def Let_def split: option.splits)

theorem failure_returns_empty_list_witness:
  "get_events no_faults default_config (Some failing_service) (Some empty_db) jan_1 jan_1_end ''custom'' =
     Some (Inr [], Some empty_db) \<and>
   get_events_from_database (\<lambda>st. st = SelectEvents) after_custom ''custom_20240101_20240101'' = [] \<and>
   get_events (\<lambda>st. st = SelectEvents) default_config None after_custom jan_1 jan_1_end ''custom'' =
     Some (Inr [], after_custom)"
proof -
  have miss: "\<not> is_period_in_database no_faults (Some empty_db) (get_period_key ''custom'' jan_1 jan_1_end)"
    by (simp add: is_period_in_database_def no_faults_def visible_def empty_db_def)
  have hit: "is_period_in_database (\<lambda>st. st = SelectEvents) after_custom (get_period_key ''custom'' jan_1 jan_1_end)"
    unfolding after_custom_def by (simp add: ev_defs model_defs Let_def)
  have cals: "(case calendars default_config of None \<Rightarrow> [''primary''] | Some cs \<Rightarrow> cs) = [''primary'']"
    by (simp add: default_config_def)
  from failure_returns_empty_list[of no_faults "Some empty_db" "''custom''" jan_1 jan_1_end failing_service default_config]
    failure_returns_empty_list[of "\<lambda>st. st = SelectEvents" after_custom "''custom''" jan_1 jan_1_end _ default_config
       "''custom_20240101_20240101''" None]
    miss hit cals fetch_failing
  show ?thesis by simp
qed

theorem failure_indistinguishable_counterexample:
  "get_events no_faults default_config (Some failing_service) (Some empty_db) jan_1 jan_1_end ''custom'' =
     get_events no_faults default_config (Some empty_service) (Some empty_db) jan_1 jan_1_end ''custom'' \<and>
   get_events_from_database (\<lambda>st. st = SelectEvents) after_custom ''custom_20240101_20240101'' =
     get_events_from_database no_faults (Some empty_db) ''custom_20240101_20240101'' \<and>
   get_events_from_database no_faults after_custom ''custom_20240101_20240101'' \<noteq> []"
proof -
  have miss: "\<not> is_period_in_database no_faults (Some empty_db) (get_period_key ''custom'' jan_1 jan_1_end)"
    by (simp add: is_period_in_database_def no_faults_def visible_def empty_db_def)
  have cals: "(case calendars default_config of None \<Rightarrow> [''primary''] | Some cs \<Rightarrow> cs) = [''primary'']"
    by (simp add: default_config_def)
  have a: "get_events no_faults default_config (Some failing_service) (Some empty_db) jan_1 jan_1_end ''custom'' =
     Some (Inr [], Some empty_db)"
    using miss cals fetch_failing by (simp add: get_events_def Let_def)
  have b: "get_events no_faults default_config (Some empty_service) (Some empty_db) jan_1 jan_1_end ''custom'' =
     Some (Inr [], Some empty_db)"
    using miss cals fetch_empty by (simp add: get_events_def Let_def)
  have c: "get_events_from_database (\<lambda>st. st = SelectEvents) after_custom ''custom_20240101_20240101'' = []"
    by (simp add: get_events_from_database_def split: option.splits)
  have d: "get_events_from_database no_faults (Some empty_db) ''custom_20240101_20240101'' = []"
    by (simp add: get_events_from_database_def no_faults_def visible_def empty_db_def)
  have e: "get_events_from_database no_faults after_custom ''custom_20240101_20240101'' \<noteq> []"
    unfolding after_custom_def by (simp add: ev_defs model_defs Let_def)
  from a b c d e show ?thesis by simp
qed

text \<open>
  C4 fails on the code. The report of the single event \<open>standup\<close> collects the title
  \<^verbatim>\<open>@ENG Standup\<close> with one occurrence and eight hours; the title has one \<^verbatim>\<open>@\<close> and
  matches the pattern of the section; yet the section of recurring events has no row
  (\<open>report_recurring_rows_empty\<close>: it never has one).
\<close>

theorem recurring_summary_has_no_rows:
  "map_option event_durations (state_of (generate_report iso_examples default_config [standup]))
      = Some [(''@ENG Standup'', 8)] \<and>
   map_option event_count (state_of (generate_report iso_examples default_config [standup]))
      = Some [(''@ENG Standup'', 1)] \<and>
   count_list ''@ENG Standup'' CHR ''@'' = 1 \<and> recurring_match ''@ENG Standup'' \<and>
   recurring_of (generate_report iso_examples default_config [standup]) = Some []"
  by (simp add: report_defs ev_defs model_defs Let_def)

text \<open>
  C5 fails on the code for the stored category. For the title \<^verbatim>\<open>@ENG_Fix bug\<close> the
  report gives the category \<^verbatim>\<open>ENG\<close> and the subcategory \<^verbatim>\<open>Fix bug\<close>, as the claim
  says, but the pattern of the store wants white space after the tag, and the row it
  writes has the category \<^verbatim>\<open>Other\<close>, as for every title with an underscore after
  the tag (\<open>store_category_underscore\<close>). The rule of the report itself is
  \<open>categorize_rule\<close>.
\<close>

theorem store_category_differs:
  "categorize ''@ENG_Fix bug'' = (''ENG'', ''Fix bug'') \<and>
   store_category ''@ENG_Fix bug'' = ''Other'' \<and>
   map row_category (events (committed (the (snd (store_period_in_database iso_examples default_config
      no_faults (Some empty_db) ''custom'' jan_1 jan_1_end [underscore_event]))))) = [''Other'']"
  by (simp add: underscore_event_def ev_defs model_defs Let_def categorize_def dot_star_def newline_def)



text \<open>
  C7 fails on the code. \<open>untimed\<close> has a title and neither \<^verbatim>\<open>start\<close> nor \<^verbatim>\<open>end\<close>.
  The report of \<open>untimed\<close> and \<open>lunch\<close> ends with \<^verbatim>\<open>KeyError\<close>, although \<open>lunch\<close>
  alone gives a report. Every event with a title and neither a pair of dates nor a pair
  of instants raises in the report (\<open>report_event_neither_raises\<close>).
\<close>

theorem report_fails_on_event_without_start:
  "ev_summary untimed = Some ''Team sync'' \<and> ev_start untimed = None \<and> ev_end untimed = None \<and>
   generate_report iso_examples default_config [untimed, lunch] = Inl KeyError \<and>
   state_of (generate_report iso_examples default_config [lunch]) \<noteq> None"
  by (simp add: report_defs ev_defs model_defs Let_def)



text \<open>
  C9. The key is a function of its three arguments: the period type, an underscore, the
  start date as \<^verbatim>\<open>%Y%m%d\<close> prints it, an underscore and the end date likewise, which is
  eight digits each for the years from 1000. For one period type, two pairs of dates have
  the same key exactly when their start dates and their end dates agree in year, month
  and day. So two different pairs of calendar dates, which differ in nothing but the date,
  have different keys. The witness has the keys of January 2024 and of the year 999.
\<close>

theorem get_period_key_dates:
  assumes "valid_date s" "valid_date e" "valid_date s'" "valid_date e'"
  shows "get_period_key k s e =
           k @ ''_'' @ decimal (year s) @ fmt2 (month s) @ fmt2 (day s)
             @ ''_'' @ decimal (year e) @ fmt2 (month e) @ fmt2 (day e) \<and>
         (1000 \<le> year s \<and> 1000 \<le> year e \<longrightarrow>
            get_period_key k s e =
              k @ ''_'' @ fmt4 (year s) @ fmt2 (month s) @ fmt2 (day s)
                @ ''_'' @ fmt4 (year e) @ fmt2 (month e) @ fmt2 (day e)) \<and>
         (get_period_key k s e = get_period_key k s' e' \<longleftrightarrow>
            year s = year s' \<and> month s = month s' \<and> day s = day s' \<and>
            year e = year e' \<and> month e = month e' \<and> day e = day e') \<and>
         (same_time_of_day s s' \<and> same_time_of_day e e' \<and> (s, e) \<noteq> (s', e') \<longrightarrow>
            get_period_key k s e \<noteq> get_period_key k s' e')"
proof -
  have fmt: "get_period_key k s e =
           k @ ''_'' @ decimal (year s) @ fmt2 (month s) @ fmt2 (day s)
             @ ''_'' @ decimal (year e) @ fmt2 (month e) @ fmt2 (day e)"
    by (simp add: get_period_key_def strftime_Ymd_def)
  have four: "get_period_key k s e =
              k @ ''_'' @ fmt4 (year s) @ fmt2 (month s) @ fmt2 (day s)
                @ ''_'' @ fmt4 (year e) @ fmt2 (month e) @ fmt2 (day e)"
    if "1000 \<le> year s \<and> 1000 \<le> year e"
  proof -
    from that assms(1,2) have "decimal (year s) = fmt4 (year s)" "decimal (year e) = fmt4 (year e)"
      by (simp_all add: decimal_four valid_date_def)
    with fmt show ?thesis by simp
  qed
  have fwd: "year s = year s' \<and> month s = month s' \<and> day s = day s' \<and>
            year e = year e' \<and> month e = month e' \<and> day e = day e'"
    if "get_period_key k s e = get_period_key k s' e'"
  proof -
    from that have a: "strftime_Ymd s = strftime_Ymd s'" and b: "strftime_Ymd e = strftime_Ymd e'"
      by (simp_all only: key_eq)
    from strftime_Ymd_inj[OF assms(1) assms(3) a] strftime_Ymd_inj[OF assms(2) assms(4) b]
    show ?thesis by blast
  qed
  have bwd: "get_period_key k s e = get_period_key k s' e'"
    if "year s = year s' \<and> month s = month s' \<and> day s = day s' \<and>
            year e = year e' \<and> month e = month e' \<and> day e = day e'"
    using that by (simp add: get_period_key_def strftime_Ymd_def)
  have differ: "get_period_key k s e \<noteq> get_period_key k s' e'"
    if h: "same_time_of_day s s' \<and> same_time_of_day e e' \<and> (s, e) \<noteq> (s', e')"
  proof
    assume "get_period_key k s e = get_period_key k s' e'"
    from fwd[OF this] h have "s = s'" "e = e'"
      by (simp_all add: same_time_of_day_eq)
    with h show False by simp
  qed
  from fwd bwd have "get_period_key k s e = get_period_key k s' e' \<longleftrightarrow>
            year s = year s' \<and> month s = month s' \<and> day s = day s' \<and>
            year e = year e' \<and> month e = month e' \<and> day e = day e'" by (rule iffI)
  with fmt four differ show ?thesis by blast
qed

theorem get_period_key_dates_witness:
  "valid_date jan_1 \<and> valid_date jan_1_end \<and> valid_date jan_31_end \<and>
   same_time_of_day jan_31_end jan_1_end \<and> (jan_1, jan_31_end) \<noteq> (jan_1, jan_1_end) \<and>
   get_period_key ''month_1'' jan_1 jan_31_end = ''month_1_20240101_20240131'' \<and>
   get_period_key ''month_1'' jan_1 jan_31_end \<noteq> get_period_key ''month_1'' jan_1 jan_1_end \<and>
   valid_date (midnight 999 1 1) \<and> valid_date (midnight 999 12 31) \<and>
   get_period_key ''custom'' (midnight 999 1 1) (midnight 999 12 31) = ''custom_9990101_9991231''"
proof -
  have v: "valid_date jan_1" "valid_date jan_1_end" "valid_date jan_31_end"
    "valid_date (midnight 999 1 1)" "valid_date (midnight 999 12 31)"
    by (simp_all add: valid_date_def jan_1_def jan_1_end_def jan_31_end_def midnight_def)
  have t: "same_time_of_day jan_1 jan_1" "same_time_of_day jan_31_end jan_1_end"
    by (simp_all add: same_time_of_day_def jan_1_end_def jan_31_end_def)
  have n: "(jan_1, jan_31_end) \<noteq> (jan_1, jan_1_end)"
    by (simp add: jan_1_end_def jan_31_end_def)
  have y: "1000 \<le> year jan_1 \<and> 1000 \<le> year jan_31_end"
    by (simp add: jan_1_def jan_31_end_def)
  from get_period_key_dates[OF v(1) v(3) v(1) v(2), of "''month_1''"] t n
  have a: "get_period_key ''month_1'' jan_1 jan_31_end \<noteq> get_period_key ''month_1'' jan_1 jan_1_end"
    by blast
  from get_period_key_dates[OF v(1) v(3) v(1) v(2), of "''month_1''"] y
  have b: "get_period_key ''month_1'' jan_1 jan_31_end =
              ''month_1'' @ ''_'' @ fmt4 (year jan_1) @ fmt2 (month jan_1) @ fmt2 (day jan_1)
                @ ''_'' @ fmt4 (year jan_31_end) @ fmt2 (month jan_31_end) @ fmt2 (day jan_31_end)"
    by blast
  from b have k: "get_period_key ''month_1'' jan_1 jan_31_end = ''month_1_20240101_20240131''"
    by (simp add: jan_1_def jan_31_end_def fmt4_def fmt2_def digit_def)
  from get_period_key_dates[OF v(4) v(5) v(4) v(5), of "''custom''"]
  have "get_period_key ''custom'' (midnight 999 1 1) (midnight 999 12 31) =
           ''custom'' @ ''_'' @ decimal (year (midnight 999 1 1)) @ fmt2 (month (midnight 999 1 1))
             @ fmt2 (day (midnight 999 1 1)) @ ''_'' @ decimal (year (midnight 999 12 31))
             @ fmt2 (month (midnight 999 12 31)) @ fmt2 (day (midnight 999 12 31))"
    by blast
  then have o: "get_period_key ''custom'' (midnight 999 1 1) (midnight 999 12 31) = ''custom_9990101_9991231''"
    by (simp add: midnight_def decimal.simps fmt2_def digit_def)
  from v t n a k o show ?thesis by simp
qed

text \<open>
  C10. The ids of the rows are distinct before a successful call of the store, and they
  are after it: an id has one row and so one period key. After the call every row whose
  id is among the stored ids carries the key of the call, every stored id has a row, and
  the rows of all other ids are the rows from before, in their order. The rows of the
  period table for other keys are untouched. So for another key the period is complete
  exactly if it was, and its events are those from before without the stored ids.
\<close>

theorem store_moves_events_to_key:
  assumes "distinct (map row_id (events (committed c0)))"
    and "store_period_in_database f cfg sql_fails (Some c0) ptype s e evs = (True, Some c1)"
  shows "distinct (map row_id (events (committed c1))) \<and>
         set (stored_ids evs) \<subseteq> row_id ` set (events (committed c1)) \<and>
         (\<forall>r \<in> set (events (committed c1)).
            row_id r \<in> set (stored_ids evs) \<longrightarrow> row_period_key r = get_period_key ptype s e) \<and>
         filter (\<lambda>r. row_id r \<notin> set (stored_ids evs)) (events (committed c1)) =
           filter (\<lambda>r. row_id r \<notin> set (stored_ids evs)) (events (committed c0)) \<and>
         (\<forall>k. k \<noteq> get_period_key ptype s e \<longrightarrow>
            periods (committed c1) k = periods (committed c0) k \<and>
            is_period_in_database no_faults (Some c1) k = is_period_in_database no_faults (Some c0) k \<and>
            get_events_from_database no_faults (Some c1) k =
              filter (\<lambda>ev. ev_id ev \<notin> Some ` set (stored_ids evs))
                (get_events_from_database no_faults (Some c0) k))"
proof -
  let ?key = "get_period_key ptype s e"
  let ?row = "\<lparr>period_type = ptype, start_date = s, end_date = e, is_complete = 1\<rparr>"
  let ?rows = "rows_of f cfg ?key evs"
  let ?ids = "set (stored_ids evs)"
  let ?old = "events (committed c0)"
  from store_success[OF assms(2)] have idle0: "txn c0 = None"
    and c1: "c1 = \<lparr>committed = (committed c0)\<lparr>periods := (periods (committed c0))(?key \<mapsto> ?row),
            events := upsert_all ?rows ?old\<rparr>, txn = None\<rparr>"
    and ok: "\<forall>ev \<in> set evs. \<exists>ro. event_row_of f cfg ?key ev = Inr ro" by auto
  have ids: "row_id ` set ?rows = ?ids"
    using rows_of_ids[OF ok] by (metis set_map)
  have ev1: "events (committed c1) = filter (\<lambda>r. row_id r \<notin> ?ids) ?old @ upsert_all ?rows []"
    using upsert_all_split[of ?rows ?old] by (simp add: c1 ids)
  have new_ids: "row_id x \<in> ?ids" if "x \<in> set (upsert_all ?rows [])" for x
    using upsert_all_ids[OF that] ids by simp
  have new_key: "row_period_key x = ?key" if "x \<in> set (upsert_all ?rows [])" for x
    using set_upsert_all[of ?rows "[]"] that rows_of_key by fastforce
  have p1: "distinct (map row_id (events (committed c1)))"
    using distinct_upsert_all[OF assms(1)] by (simp add: c1)
  have p2: "?ids \<subseteq> row_id ` set (events (committed c1))"
  proof
    fix i assume "i \<in> ?ids"
    with ids have "i \<in> row_id ` set ?rows" by simp
    then obtain r where "r \<in> set ?rows" "row_id r = i" by (auto simp: image_iff)
    from upsert_all_member[OF this(1), of ?old] this(2)
    obtain r' where "r' \<in> set (upsert_all ?rows ?old)" "row_id r' = i" by auto
    then show "i \<in> row_id ` set (events (committed c1))"
      by (auto simp: c1 image_iff intro!: bexI[of _ r'])
  qed
  have p3: "\<forall>r \<in> set (events (committed c1)). row_id r \<in> ?ids \<longrightarrow> row_period_key r = ?key"
    using new_key by (auto simp: ev1)
  have gone: "filter (\<lambda>r. row_id r \<notin> ?ids) (upsert_all ?rows []) = []"
    using new_ids by (auto simp: filter_empty_conv)
  have p4: "filter (\<lambda>r. row_id r \<notin> ?ids) (events (committed c1)) = filter (\<lambda>r. row_id r \<notin> ?ids) ?old"
    by (simp add: ev1 gone)
  have p5: "periods (committed c1) k = periods (committed c0) k \<and>
            is_period_in_database no_faults (Some c1) k = is_period_in_database no_faults (Some c0) k \<and>
            get_events_from_database no_faults (Some c1) k =
              filter (\<lambda>ev. ev_id ev \<notin> Some ` ?ids) (get_events_from_database no_faults (Some c0) k)"
    if "k \<noteq> ?key" for k
  proof -
    have a: "periods (committed c1) k = periods (committed c0) k" using that by (simp add: c1)
    have "filter (\<lambda>row. row_period_key row = k) (upsert_all ?rows []) = []"
      using new_key that by (auto simp: filter_empty_conv)
    then have "filter (\<lambda>row. row_period_key row = k) (events (committed c1)) =
        filter (\<lambda>r. row_id r \<notin> ?ids) (filter (\<lambda>row. row_period_key row = k) ?old)"
      by (simp add: ev1 conj_commute)
    then have c: "get_events_from_database no_faults (Some c1) k =
              filter (\<lambda>ev. ev_id ev \<notin> Some ` ?ids) (get_events_from_database no_faults (Some c0) k)"
      using idle0 by (simp add: get_events_from_database_def no_faults_def visible_def c1 filter_map_event_of_row)
    from a idle0 have b: "is_period_in_database no_faults (Some c1) k = is_period_in_database no_faults (Some c0) k"
      by (simp add: is_period_in_database_def no_faults_def visible_def c1)
    from a b c show ?thesis by simp
  qed
  from p1 p2 p3 p4 p5 show ?thesis by blast
qed

theorem store_moves_events_to_key_witness:
  "distinct (map row_id (events (committed (the after_custom)))) \<and>
   map ev_id (get_events_from_database no_faults after_custom ''custom_20240101_20240101'') = [Some ''1'', Some ''2''] \<and>
   stored_ids [lunch] = [''2''] \<and>
   map ev_id (get_events_from_database no_faults (Some (the after_month)) ''custom_20240101_20240101'') = [Some ''1''] \<and>
   map ev_id (get_events_from_database no_faults (Some (the after_month)) ''month_1_20240101_20240131'') = [Some ''2''] \<and>
   is_period_in_database no_faults (Some (the after_month)) ''custom_20240101_20240101''"
proof -
  have d: "distinct (map row_id (events (committed (the after_custom))))"
    unfolding after_custom_def by (simp add: ev_defs model_defs Let_def)
  have l: "map ev_id (get_events_from_database no_faults after_custom ''custom_20240101_20240101'') = [Some ''1'', Some ''2'']"
    unfolding after_custom_def by (simp add: ev_defs model_defs Let_def)
  have p: "is_period_in_database no_faults after_custom ''custom_20240101_20240101''"
    unfolding after_custom_def by (simp add: ev_defs model_defs Let_def)
  have i: "stored_ids [lunch] = [''2'']"
    by (simp add: stored_ids_def ev_defs)
  have k: "get_period_key ''month_1'' jan_1 jan_31_end = ''month_1_20240101_20240131''"
    by (simp add: ev_defs model_defs jan_31_end_def)
  have m: "map ev_id (get_events_from_database no_faults (Some (the after_month)) ''month_1_20240101_20240131'') = [Some ''2'']"
    unfolding after_month_def after_custom_def by (simp add: ev_defs model_defs Let_def jan_31_end_def)
  from store_moves_events_to_key[OF d after_month_eq] have
    "\<forall>k. k \<noteq> ''month_1_20240101_20240131'' \<longrightarrow>
            is_period_in_database no_faults (Some (the after_month)) k = is_period_in_database no_faults (Some (the after_custom)) k \<and>
            get_events_from_database no_faults (Some (the after_month)) k =
              filter (\<lambda>ev. ev_id ev \<notin> Some ` set (stored_ids [lunch]))
                (get_events_from_database no_faults (Some (the after_custom)) k)"
    unfolding k by blast
  then have "is_period_in_database no_faults (Some (the after_month)) ''custom_20240101_20240101'' = is_period_in_database no_faults (Some (the after_custom)) ''custom_20240101_20240101'' \<and>
     get_events_from_database no_faults (Some (the after_month)) ''custom_20240101_20240101'' =
              filter (\<lambda>ev. ev_id ev \<notin> Some ` set (stored_ids [lunch]))
                (get_events_from_database no_faults (Some (the after_custom)) ''custom_20240101_20240101'')"
    by simp
  then have "is_period_in_database no_faults (Some (the after_month)) ''custom_20240101_20240101''"
     and "map ev_id (get_events_from_database no_faults (Some (the after_month)) ''custom_20240101_20240101'') =
              filter (\<lambda>x. x \<notin> Some ` set (stored_ids [lunch]))
                (map ev_id (get_events_from_database no_faults after_custom ''custom_20240101_20240101''))"
    using p after_custom_some by (simp_all add: filter_map comp_def)
  with d l i m show ?thesis by simp
qed

end
